theory Spec2Isabelle
  imports Complex_Main "HOL-Library.Word" "HOL-Library.AList"
begin

unbundle bit_operations_syntax

section \<open>Chart items of containers.pyx\<close>

text \<open>
  The class \<^verbatim>\<open>ChartItem\<close> of containers.pyx has a C \<^verbatim>\<open>int\<close> label and an
  \<^verbatim>\<open>unsigned long\<close> span vector. Comparisons of C ints agree with comparisons of
  the integers they denote, so the label is an \<open>int\<close>; the vector is a 64-bit word.
\<close>

record ChartItem =
  label :: int
  vec :: "64 word"

text \<open>
  \<^verbatim>\<open>__richcmp__(self, other, op)\<close>: the operator codes are those of CPython
  (0 is \<open><\<close>, 1 is \<open>\<le>\<close>, 2 is \<open>==\<close>, 3 is \<open>!=\<close>, 4 is \<open>>\<close>, 5 is \<open>\<ge>\<close>). For any other
  code the method falls off its end and returns \<^verbatim>\<open>None\<close>.
\<close>

definition richcmp :: "ChartItem \<Rightarrow> ChartItem \<Rightarrow> int \<Rightarrow> bool option" where
  "richcmp self other opc =
     (if opc = 2 then Some (label self = label other \<and> vec self = vec other)
      else if opc = 3 then Some (label self \<noteq> label other \<or> vec self \<noteq> vec other)
      else if opc = 5 then Some (label self \<ge> label other \<or> vec self \<ge> vec other)
      else if opc = 1 then Some (label self \<le> label other \<or> vec self \<le> vec other)
      else if opc = 0 then Some (label self < label other \<or> vec self < vec other)
      else if opc = 4 then Some (label self > label other \<or> vec self > vec other)
      else None)"

section \<open>Bit-span primitives\<close>

text \<open>
  Modelled from the spec: the module \<^verbatim>\<open>bit\<close> (nextset, nextunset, bitcount, bitlength,
  testbitint and the array variants) and the header \<^verbatim>\<open>macros.h\<close> (TESTBIT) are not
  among the sources. The contracts are those of the specification: \<^verbatim>\<open>nextset(v, i)\<close> is
  the least bit index at or above \<open>i\<close> that is set, or \<open>-1\<close>; \<^verbatim>\<open>nextunset(v, i)\<close> is the
  least index at or above \<open>i\<close> that is unset (the width when there is none);
  \<^verbatim>\<open>bitcount\<close> is the population count; \<^verbatim>\<open>bitlength\<close> is one more than the index of
  the highest set bit, and 0 for the empty vector; \<^verbatim>\<open>testbitint(v, i)\<close> reads bit \<open>i\<close>.
\<close>

definition testbitint :: "64 word \<Rightarrow> nat \<Rightarrow> bool" where
  "testbitint arg pos = bit arg pos"

definition nextset :: "64 word \<Rightarrow> nat \<Rightarrow> int" where
  "nextset v pos = (case filter (bit v) [pos..<64] of [] \<Rightarrow> -1 | i # _ \<Rightarrow> int i)"

definition nextunset :: "64 word \<Rightarrow> nat \<Rightarrow> nat" where
  "nextunset v pos = (case filter (\<lambda>i. \<not> bit v i) [pos..<64] of [] \<Rightarrow> 64 | i # _ \<Rightarrow> i)"

definition bitcount :: "64 word \<Rightarrow> nat" where
  "bitcount v = length (filter (bit v) [0..<64])"

definition bitlength :: "64 word \<Rightarrow> nat" where
  "bitlength v = (case filter (bit v) (rev [0..<64]) of [] \<Rightarrow> 0 | i # _ \<Rightarrow> Suc i)"






section \<open>Grammar rules\<close>

text \<open>
  A rule carries its yield function in two bit strings: bit \<open>n\<close> of \<open>args\<close> says whether
  atom \<open>n\<close> is taken from the right child, bit \<open>n\<close> of \<open>lengths\<close> says whether atom \<open>n\<close> is
  the last atom of its argument. The declaration of the struct is not among the
  sources; \<^verbatim>\<open>bitlength\<close> takes an unsigned 64-bit value, into which every narrower
  unsigned field embeds, so both fields are 64-bit words here. The rule probability
  is a negative logarithm, a real number in this model.
\<close>

record Rule =
  lhs :: nat
  rhs1 :: nat
  rhs2 :: nat
  args :: "64 word"
  lengths :: "64 word"
  rule_prob :: real
  no :: nat

section \<open>The yield-function test on narrow spans\<close>

text \<open>
  \<^verbatim>\<open>concat(rule, lvec, rvec)\<close>, here \<open>concat_yf\<close> (the name \<open>concat\<close> is taken by the
  list library). The loop over \<open>n = 0 ..< bitlength(lengths)\<close> is a
  recursion over the list of atom indices still to visit; the three mutable locals
  \<open>lvec\<close>, \<open>rvec\<close> and \<open>mask\<close> (here \<open>msk\<close>) are its arguments. All arithmetic is on unsigned 64-bit
  words and wraps around.
\<close>

fun concat_loop :: "Rule \<Rightarrow> nat list \<Rightarrow> 64 word \<Rightarrow> 64 word \<Rightarrow> 64 word \<Rightarrow> bool" where
  "concat_loop rule [] lvec rvec msk = (lvec = rvec \<and> rvec = 0)"
| "concat_loop rule (n # ns) lvec rvec msk =
     (if testbitint (args rule) n then
        (if rvec AND msk = 0 then False
         else
           let rvec1 = rvec OR (rvec - 1);
               mask1 = rvec1 AND (NOT rvec1 - 1);
               lvec2 = lvec AND NOT mask1;
               rvec2 = rvec1 AND NOT mask1
           in if testbitint (lengths rule) n then
                (if (lvec2 XOR rvec2) AND (mask1 + 1) \<noteq> 0 then False
                 else concat_loop rule ns lvec2 rvec2
                        (((NOT lvec2 AND (lvec2 - 1)) AND (NOT rvec2 AND (rvec2 - 1))) + 1))
              else concat_loop rule ns lvec2 rvec2 (mask1 + 1))
      else
        (if lvec AND msk = 0 then False
         else
           let lvec1 = lvec OR (lvec - 1);
               mask1 = lvec1 AND (NOT lvec1 - 1);
               lvec2 = lvec1 AND NOT mask1;
               rvec2 = rvec AND NOT mask1
           in if testbitint (lengths rule) n then
                (if (lvec2 XOR rvec2) AND (mask1 + 1) \<noteq> 0 then False
                 else concat_loop rule ns lvec2 rvec2
                        (((NOT lvec2 AND (lvec2 - 1)) AND (NOT rvec2 AND (rvec2 - 1))) + 1))
              else concat_loop rule ns lvec2 rvec2 (mask1 + 1)))"

definition concat_yf :: "Rule \<Rightarrow> 64 word \<Rightarrow> 64 word \<Rightarrow> bool" where
  "concat_yf rule lvec rvec =
     (if lvec AND rvec \<noteq> 0 then False
      else concat_loop rule [0..<bitlength (lengths rule)] lvec rvec
             (if testbitint (args rule) 0 then rvec else lvec))"

section \<open>The yield-function test on wide spans\<close>




section \<open>What the yield function prescribes\<close>






section \<open>Facts about the bit-span primitives\<close>

lemma filter_upt_hd:
  "filter P [p..<n] = i # rest \<Longrightarrow> p \<le> i \<and> i < n \<and> P i \<and> (\<forall>j. p \<le> j \<and> j < i \<longrightarrow> \<not> P j)"
proof (induction "n - p" arbitrary: p)
  case 0
  then show ?case by simp
next
  case (Suc k)
  then have pn: "p < n" by simp
  then have eq: "[p..<n] = p # [Suc p..<n]" by (simp add: upt_rec)
  show ?case
  proof (cases "P p")
    case True
    with Suc.prems eq have "i = p" by simp
    with True pn show ?thesis by auto
  next
    case False
    with Suc.prems eq have f: "filter P [Suc p..<n] = i # rest" by simp
    from Suc.hyps have "k = n - Suc p" by simp
    from Suc.hyps(1) [OF this f]
    have IH: "Suc p \<le> i \<and> i < n \<and> P i \<and> (\<forall>j. Suc p \<le> j \<and> j < i \<longrightarrow> \<not> P j)" .
    have "\<not> P j" if "p \<le> j" "j < i" for j
    proof (cases "j = p")
      case True with False show ?thesis by simp
    next
      case False with that IH show ?thesis by auto
    qed
    with IH show ?thesis by auto
  qed
qed

lemma nextset_cases:
  "nextset v p = -1 \<or> (\<exists>i. nextset v p = int i \<and> p \<le> i \<and> i < 64 \<and> bit v i)"
proof (cases "filter (bit v) [p..<64]")
  case Nil
  then show ?thesis unfolding nextset_def by simp
next
  case (Cons i rest)
  from filter_upt_hd [OF Cons] Cons show ?thesis unfolding nextset_def by simp
qed

lemma nextunset_bounds: "p \<le> 64 \<Longrightarrow> p \<le> nextunset v p \<and> nextunset v p \<le> 64"
proof (cases "filter (\<lambda>i. \<not> bit v i) [p..<64]")
  case Nil
  assume "p \<le> 64"
  with Nil show ?thesis unfolding nextunset_def by simp
next
  case (Cons i rest)
  from filter_upt_hd [OF Cons] Cons show ?thesis unfolding nextunset_def by simp
qed

lemma nextunset_gt: "bit v p \<Longrightarrow> p < 64 \<Longrightarrow> p < nextunset v p"
proof (cases "filter (\<lambda>i. \<not> bit v i) [p..<64]")
  case Nil
  assume "p < 64"
  with Nil show ?thesis unfolding nextunset_def by simp
next
  case (Cons i rest)
  assume b: "bit v p"
  from filter_upt_hd [OF Cons] have "p \<le> i" "\<not> bit v i" by auto
  with b have "p < i" by (metis le_neq_implies_less)
  with Cons show ?thesis unfolding nextunset_def by simp
qed

section \<open>Items, edges and the agenda of the LCFRS parser\<close>

text \<open>
  Modelled from the spec: the declarations of \<^verbatim>\<open>SmallChartItem\<close>, \<^verbatim>\<open>LCFRSEdge\<close>,
  \<^verbatim>\<open>LexicalRule\<close> and \<^verbatim>\<open>Grammar\<close> that the parser imports are not among the sources.
  An item is a label (an unsigned id of the grammar) and a span vector (an unsigned
  64-bit word, as the parser declares \<^verbatim>\<open>vec\<close>); an edge is what \<^verbatim>\<open>new_Edge\<close> is given:
  score, inside, prob, rule number, left and right item. Costs are C doubles in the
  source and real numbers here.
\<close>

record SmallChartItem =
  label :: nat
  vec :: "64 word"

definition new_ChartItem :: "nat \<Rightarrow> 64 word \<Rightarrow> SmallChartItem" where
  "new_ChartItem l v = \<lparr>label = l, vec = v\<rparr>"

definition NONE :: SmallChartItem where
  "NONE = new_ChartItem 0 0"

record LCFRSEdge =
  score :: real
  inside :: real
  prob :: real
  ruleno :: int
  left :: SmallChartItem
  right :: SmallChartItem

definition new_Edge ::
  "real \<Rightarrow> real \<Rightarrow> real \<Rightarrow> int \<Rightarrow> SmallChartItem \<Rightarrow> SmallChartItem \<Rightarrow> LCFRSEdge" where
  "new_Edge sc ins pr rn l r =
     \<lparr>score = sc, inside = ins, prob = pr, ruleno = rn, left = l, right = r\<rparr>"

text \<open>\<^verbatim>\<open>iscore(e)\<close>: replace the estimate with the inside probability.\<close>

definition iscore :: "LCFRSEdge \<Rightarrow> LCFRSEdge" where
  "iscore e = e\<lparr>score := inside e\<rparr>"

record LexicalRule =
  lex_lhs :: nat
  lex_prob :: real

text \<open>
  The grammar interface of the specification. \<open>toid\<close> is the dictionary from label
  strings to ids, as an association list; \<open>unary l\<close>, \<open>lbinary l\<close> and \<open>rbinary l\<close> are the
  rule arrays the parser indexes with \<open>0 ..< numrules\<close> until the indexing child of a
  rule differs from \<open>l\<close>; \<open>bylhs\<close> is the array of all rules, closed by a sentinel whose
  left-hand side is \<open>nonterminals\<close>. Labels that occur in rules are ids of the grammar:
  the lookups by label are total.
\<close>

record Grammar =
  toid :: "(string \<times> nat) list"
  tolabel :: "nat \<Rightarrow> string"
  lexical :: "string \<Rightarrow> LexicalRule list"
  unary :: "nat \<Rightarrow> Rule list"
  lbinary :: "nat \<Rightarrow> Rule list"
  rbinary :: "nat \<Rightarrow> Rule list"
  bylhs :: "Rule list"
  fanout :: "nat \<Rightarrow> nat"
  numrules :: nat
  nonterminals :: nat

definition unary_rules :: "Grammar \<Rightarrow> nat \<Rightarrow> Rule list" where
  "unary_rules g l = takeWhile (\<lambda>r. rhs1 r = l) (take (numrules g) (unary g l))"

definition lbinary_rules :: "Grammar \<Rightarrow> nat \<Rightarrow> Rule list" where
  "lbinary_rules g l = takeWhile (\<lambda>r. rhs1 r = l) (take (numrules g) (lbinary g l))"

definition rbinary_rules :: "Grammar \<Rightarrow> nat \<Rightarrow> Rule list" where
  "rbinary_rules g l = takeWhile (\<lambda>r. rhs2 r = l) (take (numrules g) (rbinary g l))"

text \<open>
  Modelled from the spec: the module \<^verbatim>\<open>agenda\<close> is not among the sources. The agenda
  is a priority queue keyed by item, ordered by the score of its values, with
  membership, insertion or replacement (\<^verbatim>\<open>setitem\<close>), \<^verbatim>\<open>setifbetter\<close> (store the value when
  the key is new or the value is strictly better), \<^verbatim>\<open>replace\<close> and extraction of a
  minimal entry (\<^verbatim>\<open>popentry\<close>). It is an association list with one entry per key; among
  entries of equal minimal score the one stored first is extracted (the specification
  leaves the choice open). The function \<open>sc\<close> reads the score of a value.
\<close>

definition agenda_contains :: "('k \<times> 'v) list \<Rightarrow> 'k \<Rightarrow> bool" where
  "agenda_contains ag k = (map_of ag k \<noteq> None)"

definition agenda_setitem :: "('k \<times> 'v) list \<Rightarrow> 'k \<Rightarrow> 'v \<Rightarrow> ('k \<times> 'v) list" where
  "agenda_setitem ag k v = AList.update k v ag"

definition agenda_setifbetter ::
  "('v \<Rightarrow> real) \<Rightarrow> ('k \<times> 'v) list \<Rightarrow> 'k \<Rightarrow> 'v \<Rightarrow> ('k \<times> 'v) list" where
  "agenda_setifbetter sc ag k v =
     (case map_of ag k of
        None \<Rightarrow> agenda_setitem ag k v
      | Some old \<Rightarrow> if sc v < sc old then agenda_setitem ag k v else ag)"

fun agenda_min :: "('v \<Rightarrow> real) \<Rightarrow> ('k \<times> 'v) \<Rightarrow> ('k \<times> 'v) list \<Rightarrow> ('k \<times> 'v)" where
  "agenda_min sc best [] = best"
| "agenda_min sc best (e # es) =
     agenda_min sc (if sc (snd e) < sc (snd best) then e else best) es"

definition agenda_popentry ::
  "('v \<Rightarrow> real) \<Rightarrow> ('k \<times> 'v) list \<Rightarrow> (('k \<times> 'v) \<times> ('k \<times> 'v) list) option" where
  "agenda_popentry sc ag =
     (case ag of
        [] \<Rightarrow> None
      | e # es \<Rightarrow> let m = agenda_min sc e es in Some (m, AList.delete (fst m) ag))"

section \<open>process_edge\<close>

datatype error = KeyError | IndexError | TypeError

text \<open>
  The whitelist is a list indexed by label; an entry is \<^verbatim>\<open>None\<close>, a dictionary whose
  keys are items (with label 0), or, for \<^verbatim>\<open>splitprune\<close> with \<^verbatim>\<open>markorigin\<close>, a list of such
  dictionaries, one per component. Only the keys of a dictionary matter. An entry of
  the wrong shape for the mode is a \<open>TypeError\<close> here.
\<close>

datatype wl_entry = WNone | WDict "SmallChartItem list" | WList "SmallChartItem list list"

text \<open>
  The state the parser works on. The Viterbi index is a list of dictionaries, one per
  label: indexing it with a label beyond its length is an \<open>IndexError\<close>.
\<close>

record pstate =
  agenda :: "(SmallChartItem \<times> LCFRSEdge) list"
  chart :: "(SmallChartItem \<times> LCFRSEdge list) list"
  viterbi :: "(SmallChartItem \<times> LCFRSEdge) list list"
  blocked :: "32 word"
  warnings :: "SmallChartItem list"
  beam :: "(64 word \<times> int) list"
  maxA :: nat

text \<open>
  The pruning of a discontinuous item against a split whitelist: the loop
  \<^verbatim>\<open>a = nextset(vec, b); while a != -1: b = nextunset(vec, a); ...; a = nextset(vec, b)\<close>
  over the maximal runs \<open>[a, b)\<close> of the span. Each run is looked up as the item with
  label 0 and vector \<open>(1 << b) - (1 << a)\<close>; with \<^verbatim>\<open>markorigin\<close> the dictionary is the
  \<open>cnt\<close>-th of the entry's list, otherwise the entry itself. The result is \<open>True\<close> when
  every run is found, \<open>False\<close> as soon as one is missing.
\<close>

definition component_dict :: "bool \<Rightarrow> wl_entry \<Rightarrow> nat \<Rightarrow> error + SmallChartItem list" where
  "component_dict mo entry cnt =
     (if mo then
        (case entry of
           WList l \<Rightarrow> if cnt < length l then Inr (l ! cnt) else Inl IndexError
         | _ \<Rightarrow> Inl TypeError)
      else (case entry of WDict d \<Rightarrow> Inr d | _ \<Rightarrow> Inl TypeError))"

function split_loop :: "bool \<Rightarrow> wl_entry \<Rightarrow> 64 word \<Rightarrow> int \<Rightarrow> nat \<Rightarrow> error + bool" where
  "split_loop mo entry v a cnt =
     (if a = -1 then Inr True
      else
        let b = nextunset v (nat a);
            component = new_ChartItem 0 (push_bit b 1 - push_bit (nat a) 1)
        in case component_dict mo entry cnt of
             Inl e \<Rightarrow> Inl e
           | Inr componentdict \<Rightarrow>
               if component \<notin> set componentdict then Inr False
               else split_loop mo entry v (nextset v b) (Suc cnt))"
  by pat_completeness auto

lemma split_loop_decreases:
  assumes "a \<noteq> -1" and "a' = nextset v (nextunset v (nat a))"
  shows "(if a' = -1 then 0 else if a' < 0 then 67 else Suc (65 - nat a'))
       < (if a = -1 then 0 else if a < 0 then 67 else (Suc (65 - nat a) :: nat))"
proof (cases "a' = -1")
  case True
  with assms(1) show ?thesis by auto
next
  case False
  with nextset_cases [of v "nextunset v (nat a)"] assms(2)
  obtain i where i: "a' = int i" "nextunset v (nat a) \<le> i" "i < 64" "bit v i"
    by auto
  show ?thesis
  proof (cases "a < 0")
    case True
    with assms(1) i show ?thesis by auto
  next
    case False
    then have a0: "0 \<le> a" by simp
    have "nat a < 64"
    proof (rule ccontr)
      assume "\<not> nat a < 64"
      then have "[nat a..<64] = []" by simp
      then have "nextunset v (nat a) = 64" by (simp add: nextunset_def)
      with i show False by simp
    qed
    have "nat a \<le> nextunset v (nat a)"
      using nextunset_bounds [of "nat a" v] \<open>nat a < 64\<close> by simp
    with i have le: "nat a \<le> i" by simp
    have "nat a \<noteq> i"
    proof
      assume "nat a = i"
      with i have "bit v (nat a)" by simp
      from nextunset_gt [OF this \<open>nat a < 64\<close>] i \<open>nat a = i\<close> show False by simp
    qed
    with le have "nat a < i" by simp
    with i a0 assms(1) show ?thesis by auto
  qed
qed

termination split_loop
  apply (relation "measure (\<lambda>(mo, entry, v, a, cnt).
           if a = -1 then 0 else if a < 0 then 67 else Suc (65 - nat a))")
   apply simp
  using split_loop_decreases apply simp
  done

declare split_loop.simps [simp del]

definition whitelist_pass ::
  "(nat \<Rightarrow> wl_entry) option \<Rightarrow> bool \<Rightarrow> bool \<Rightarrow> SmallChartItem \<Rightarrow> error + bool" where
  "whitelist_pass wl sp mo newitem =
     (case wl of
        None \<Rightarrow> Inr True
      | Some w \<Rightarrow>
          (case w (label newitem) of
             WNone \<Rightarrow> Inr True
           | entry \<Rightarrow>
               if sp then split_loop mo entry (vec newitem) (nextset (vec newitem) 0) 0
               else (case entry of
                       WDict d \<Rightarrow> Inr (newitem\<lparr>label := 0\<rparr> \<in> set d)
                     | _ \<Rightarrow> Inl TypeError)))"

text \<open>
  \<^verbatim>\<open>process_edge(newitem, score, inside, prob, ruleno, left, right, agenda, chart,
  viterbi, grammar, exhaustive, whitelist, splitprune, markorigin, &blocked)\<close>. The
  mutable agenda, chart, Viterbi index and counter are the state \<open>st\<close>; the warning the
  fourth branch logs is recorded in \<open>warnings\<close>. The result carries the new state and
  whether a fresh item object is returned (\<open>True\<close>) or \<open>newitem\<close> itself, which the
  source does exactly when the item was pruned. A dictionary lookup of a missing key
  is a \<open>KeyError\<close>, a list index out of range an \<open>IndexError\<close>.
\<close>

definition process_edge ::
  "SmallChartItem \<Rightarrow> real \<Rightarrow> real \<Rightarrow> real \<Rightarrow> int \<Rightarrow> SmallChartItem \<Rightarrow> SmallChartItem \<Rightarrow> pstate
     \<Rightarrow> bool \<Rightarrow> (nat \<Rightarrow> wl_entry) option \<Rightarrow> bool \<Rightarrow> bool \<Rightarrow> error + (pstate \<times> bool)" where
  "process_edge newitem sc ins pr rn l r st exh wl sp mo =
     (let inagenda = agenda_contains (agenda st) newitem;
          inchart = (map_of (chart st) newitem \<noteq> None);
          e = new_Edge sc ins pr rn l r
      in
        if \<not> inagenda \<and> \<not> inchart then
          (case whitelist_pass wl sp mo newitem of
             Inl err \<Rightarrow> Inl err
           | Inr False \<Rightarrow> Inr (st\<lparr>blocked := blocked st + 1\<rparr>, False)
           | Inr True \<Rightarrow>
               Inr (st\<lparr>agenda := agenda_setitem (agenda st) newitem e,
                        chart := AList.update newitem [] (chart st)\<rparr>, True))
        else if \<not> exh \<and> inagenda then
          Inr (st\<lparr>agenda := agenda_setifbetter score (agenda st) newitem e\<rparr>, True)
        else if inagenda \<and> ins < inside (the (map_of (agenda st) newitem)) then
          (case map_of (chart st) newitem of
             None \<Rightarrow> Inl KeyError
           | Some es \<Rightarrow>
               Inr (st\<lparr>agenda := agenda_setitem (agenda st) newitem e,
                        chart := AList.update newitem
                                   (es @ [iscore (the (map_of (agenda st) newitem))]) (chart st)\<rparr>,
                    True))
        else if \<not> inagenda \<and> length (viterbi st) \<le> label newitem then
          Inl IndexError
        else if \<not> inagenda \<and> map_of (viterbi st ! label newitem) newitem = None then
          Inl KeyError
        else if \<not> inagenda \<and> ins < inside (the (map_of (viterbi st ! label newitem) newitem)) then
          Inr (st\<lparr>agenda := agenda_setitem (agenda st) newitem e,
                   warnings := warnings st @ [newitem]\<rparr>, True)
        else if exh then
          (case map_of (chart st) newitem of
             None \<Rightarrow> Inl KeyError
           | Some es \<Rightarrow> Inr (st\<lparr>chart := AList.update newitem (es @ [iscore e]) (chart st)\<rparr>, True))
        else Inr (st, True))"

section \<open>parse\<close>

text \<open>
  The optional figure of merit: the kind of estimate and the four-dimensional table
  \<open>outside\<close>, indexed by a label and three C ints.
\<close>

datatype estimates =
  SX "nat \<Rightarrow> int \<Rightarrow> int \<Rightarrow> int \<Rightarrow> real"
| SXlrgaps "nat \<Rightarrow> int \<Rightarrow> int \<Rightarrow> int \<Rightarrow> real"

record params =
  sent :: "string list"
  grammar :: Grammar
  tags :: "string list option"
  start :: nat
  exhaustive :: bool
  whitelist :: "(nat \<Rightarrow> wl_entry) option"
  splitprune :: bool
  markorigin :: bool
  estimates :: "estimates option"
  beamwidth :: int

definition ebind :: "'e + 'a \<Rightarrow> ('a \<Rightarrow> 'e + 'b) \<Rightarrow> 'e + 'b" where
  "ebind m f = (case m of Inl e \<Rightarrow> Inl e | Inr x \<Rightarrow> f x)"

text \<open>A \<^verbatim>\<open>for\<close> loop whose body may raise: the first error ends it.\<close>

fun efold :: "('x \<Rightarrow> 's \<Rightarrow> 'e + 's) \<Rightarrow> 'x list \<Rightarrow> 's \<Rightarrow> 'e + 's" where
  "efold f [] s = Inr s"
| "efold f (x # xs) s = (case f x s of Inl e \<Rightarrow> Inl e | Inr s' \<Rightarrow> efold f xs s')"

definition lensent :: "params \<Rightarrow> int" where
  "lensent p = int (length (sent p))"

definition goal :: "params \<Rightarrow> SmallChartItem" where
  "goal p = new_ChartItem (start p) (push_bit (length (sent p)) 1 - 1)"

text \<open>
  \<open>score += outside[...]; if score > 300.0: continue\<close>. The result is \<open>None\<close> when the
  candidate is dropped by the cutoff. The locals \<open>length\<close>, \<open>left\<close>, \<open>right\<close> and \<open>gaps\<close>
  are the arguments \<open>len\<close>, \<open>lft\<close>, \<open>rgt\<close> and \<open>gps\<close>.
\<close>

definition add_estimate ::
  "estimates option \<Rightarrow> real \<Rightarrow> nat \<Rightarrow> int \<Rightarrow> int \<Rightarrow> int \<Rightarrow> int \<Rightarrow> real option" where
  "add_estimate est sc l len lft rgt gps =
     (case est of
        None \<Rightarrow> Some sc
      | Some (SX outside) \<Rightarrow>
          (let s = sc + outside l lft rgt 0 in if s > 300 then None else Some s)
      | Some (SXlrgaps outside) \<Rightarrow>
          (let s = sc + outside l len (lft + rgt) gps in if s > 300 then None else Some s))"

text \<open>
  The locals as the unary section sets them from the popped item, and as the two
  binary sections set them from the vector \<open>v\<close> they read (the new item's vector in
  the binary-left section, the popped item's vector in the binary-right section):
  for \<open>SX\<close> the binary sections compute \<open>right\<close> without the gaps.
\<close>

definition unary_estimate :: "params \<Rightarrow> real \<Rightarrow> nat \<Rightarrow> 64 word \<Rightarrow> real option" where
  "unary_estimate p sc l v =
     (let len = int (bitcount v);
          lft = nextset v 0;
          gps = int (bitlength v) - len - lft;
          rgt = lensent p - len - lft - gps
      in add_estimate (estimates p) sc l len lft rgt gps)"

definition binary_estimate :: "params \<Rightarrow> real \<Rightarrow> nat \<Rightarrow> 64 word \<Rightarrow> real option" where
  "binary_estimate p sc l v =
     (let len = int (bitcount v);
          lft = nextset v 0
      in case estimates p of
           None \<Rightarrow> Some sc
         | Some (SX outside) \<Rightarrow>
             add_estimate (estimates p) sc l len lft (lensent p - len - lft) 0
         | Some (SXlrgaps outside) \<Rightarrow>
             (let gps = int (bitlength v) - len - lft
              in add_estimate (estimates p) sc l len lft (lensent p - len - lft - gps) gps))"

subsection \<open>The scan\<close>

definition tags_given :: "params \<Rightarrow> bool" where
  "tags_given p = (case tags p of None \<Rightarrow> False | Some ts \<Rightarrow> ts \<noteq> [])"

definition startswith :: "string \<Rightarrow> string \<Rightarrow> bool" where
  "startswith s pre = (take (length pre) s = pre)"

definition tag_matches :: "params \<Rightarrow> nat \<Rightarrow> nat \<Rightarrow> bool" where
  "tag_matches p i l =
     (\<not> tags_given p \<or> tolabel (grammar p) l = the (tags p) ! i
      \<or> startswith (tolabel (grammar p) l) (the (tags p) ! i @ ''@''))"

text \<open>
  One lexical rule of the word at position \<open>i\<close>; \<open>item\<close> is the terminal item
  \<^verbatim>\<open>new_ChartItem(Epsilon, i)\<close>; the state is paired with the flag \<open>recognized\<close>.
\<close>

definition scan_terminal ::
  "params \<Rightarrow> nat \<Rightarrow> SmallChartItem \<Rightarrow> LexicalRule \<Rightarrow> pstate \<times> bool \<Rightarrow> error + (pstate \<times> bool)" where
  "scan_terminal p i item terminal sr =
     (if tag_matches p i (lex_lhs terminal) then
        (case add_estimate (estimates p) (lex_prob terminal) (lex_lhs terminal)
                1 (int i) (lensent p - 1 - int i) 0 of
           None \<Rightarrow> Inr sr
         | Some sc \<Rightarrow>
             (case process_edge (new_ChartItem (lex_lhs terminal) (push_bit i 1)) sc
                     (lex_prob terminal) (lex_prob terminal) (-1) item NONE (fst sr)
                     (exhaustive p) (whitelist p) False (markorigin p) of
                Inl err \<Rightarrow> Inl err
              | Inr (st', fresh) \<Rightarrow> Inr (st', snd sr \<or> fresh)))
      else Inr sr)"

datatype scan_result = Scanned pstate | NotCovered pstate string

text \<open>The message \<^verbatim>\<open>"not covered: '%s'. " % tok\<close>.\<close>

definition not_covered_msg :: "string \<Rightarrow> string" where
  "not_covered_msg tok = ''not covered: '' @ [CHR 0x27] @ tok @ [CHR 0x27] @ ''. ''"

text \<open>
  The scan of the words from position \<open>i\<close> on. With gold tags, \<open>tags[i]\<close> is read at
  every position, which raises \<open>IndexError\<close> when there are fewer tags than words.
  When the bare tag item is dropped by the cutoff the source executes \<^verbatim>\<open>continue\<close>:
  the scan goes on with the next word.
\<close>

fun scan :: "params \<Rightarrow> nat \<Rightarrow> nat \<Rightarrow> string list \<Rightarrow> pstate \<Rightarrow> error + scan_result" where
  "scan p Epsilon i [] st = Inr (Scanned st)"
| "scan p Epsilon i (w # ws) st =
     (if tags_given p \<and> length (the (tags p)) \<le> i then Inl IndexError
      else
        let item = new_ChartItem Epsilon (word_of_nat i)
        in case efold (scan_terminal p i item) (lexical (grammar p) w) (st, False) of
             Inl err \<Rightarrow> Inl err
           | Inr (st1, recognized) \<Rightarrow>
               if \<not> recognized \<and> tags_given p
                  \<and> map_of (toid (grammar p)) (the (tags p) ! i) \<noteq> None then
                 (let l = the (map_of (toid (grammar p)) (the (tags p) ! i))
                  in case add_estimate (estimates p) 0 l 1 (int i) (lensent p - 1 - int i) 0 of
                       None \<Rightarrow> scan p Epsilon (Suc i) ws st1
                     | Some sc \<Rightarrow>
                         (let tagitem = new_ChartItem l (push_bit i 1)
                          in scan p Epsilon (Suc i) ws
                               (st1\<lparr>agenda := agenda_setitem (agenda st1) tagitem
                                                 (new_Edge sc 0 0 (-1) item NONE),
                                    chart := AList.update tagitem [] (chart st1)\<rparr>)))
               else if \<not> recognized then
                 Inr (NotCovered st1
                        (not_covered_msg (if tags_given p then the (tags p) ! i else w)))
               else scan p Epsilon (Suc i) ws st1)"

subsection \<open>The agenda loop\<close>

text \<open>
  The histogram \<open>beam\<close> is a \<^verbatim>\<open>defaultdict(int)\<close>: a span that was never counted reads
  as 0.
\<close>

definition beam_get :: "(64 word \<times> int) list \<Rightarrow> 64 word \<Rightarrow> int" where
  "beam_get b v = (case map_of b v of None \<Rightarrow> 0 | Some c \<Rightarrow> c)"

definition beam_inc :: "(64 word \<times> int) list \<Rightarrow> 64 word \<Rightarrow> (64 word \<times> int) list" where
  "beam_inc b v = AList.update v (beam_get b v + 1) b"

definition unary_rule :: "params \<Rightarrow> SmallChartItem \<Rightarrow> real \<Rightarrow> Rule \<Rightarrow> pstate \<Rightarrow> error + pstate" where
  "unary_rule p item x rule st =
     (let ins = x + rule_prob rule
      in case unary_estimate p ins (lhs rule) (vec item) of
           None \<Rightarrow> Inr st
         | Some sc \<Rightarrow>
             map_sum id fst
               (process_edge (new_ChartItem (lhs rule) (vec item)) sc ins (rule_prob rule)
                  (int (no rule)) item NONE st (exhaustive p) (whitelist p)
                  (splitprune p \<and> fanout (grammar p) (lhs rule) \<noteq> 1) (markorigin p)))"

text \<open>
  One sibling of the binary-left section: the popped \<open>item\<close> is the left child, the
  sibling \<open>I\<close> with its Viterbi edge \<open>e\<close> the right child.
\<close>

definition binary_left_sibling ::
  "params \<Rightarrow> SmallChartItem \<Rightarrow> real \<Rightarrow> Rule \<Rightarrow> SmallChartItem \<times> LCFRSEdge \<Rightarrow> pstate
     \<Rightarrow> error + pstate" where
  "binary_left_sibling p item x rule Ie st =
     (let sibling = fst Ie
      in if beamwidth p \<noteq> 0 \<and> beam_get (beam st) (vec item XOR vec sibling) > beamwidth p
         then Inr st
         else
           let st1 = (if beamwidth p \<noteq> 0
                      then st\<lparr>beam := beam_inc (beam st) (vec item XOR vec sibling)\<rparr> else st)
           in if concat_yf rule (vec item) (vec sibling) then
                (let newitem = new_ChartItem (lhs rule) (vec item XOR vec sibling);
                     ins = x + inside (snd Ie) + rule_prob rule
                 in case binary_estimate p ins (lhs rule) (vec newitem) of
                      None \<Rightarrow> Inr st1
                    | Some sc \<Rightarrow>
                        map_sum id fst
                          (process_edge newitem sc ins (rule_prob rule) (int (no rule))
                             item sibling st1 (exhaustive p) (whitelist p)
                             (splitprune p \<and> fanout (grammar p) (lhs rule) \<noteq> 1)
                             (markorigin p)))
              else Inr st1)"

text \<open>
  One sibling of the binary-right section: the sibling is the left child, the popped
  \<open>item\<close> the right child; the estimate reads the vector of the popped item.
\<close>

definition binary_right_sibling ::
  "params \<Rightarrow> SmallChartItem \<Rightarrow> real \<Rightarrow> Rule \<Rightarrow> SmallChartItem \<times> LCFRSEdge \<Rightarrow> pstate
     \<Rightarrow> error + pstate" where
  "binary_right_sibling p item x rule Ie st =
     (let sibling = fst Ie
      in if beamwidth p \<noteq> 0 \<and> beam_get (beam st) (vec sibling XOR vec item) > beamwidth p
         then Inr st
         else
           let st1 = (if beamwidth p \<noteq> 0
                      then st\<lparr>beam := beam_inc (beam st) (vec sibling XOR vec item)\<rparr> else st)
           in if concat_yf rule (vec sibling) (vec item) then
                (let newitem = new_ChartItem (lhs rule) (vec sibling XOR vec item);
                     ins = x + inside (snd Ie) + rule_prob rule
                 in case binary_estimate p ins (lhs rule) (vec item) of
                      None \<Rightarrow> Inr st1
                    | Some sc \<Rightarrow>
                        map_sum id fst
                          (process_edge newitem sc ins (rule_prob rule) (int (no rule))
                             sibling item st1 (exhaustive p) (whitelist p)
                             (splitprune p \<and> fanout (grammar p) (lhs rule) \<noteq> 1)
                             (markorigin p)))
              else Inr st1)"

definition binary_left :: "params \<Rightarrow> SmallChartItem \<Rightarrow> real \<Rightarrow> pstate \<Rightarrow> error + pstate" where
  "binary_left p item x st =
     efold (\<lambda>rule s. if rhs2 rule < length (viterbi s)
                      then efold (binary_left_sibling p item x rule) (viterbi s ! rhs2 rule) s
                      else Inl IndexError)
       (lbinary_rules (grammar p) (label item)) st"

definition binary_right :: "params \<Rightarrow> SmallChartItem \<Rightarrow> real \<Rightarrow> pstate \<Rightarrow> error + pstate" where
  "binary_right p item x st =
     efold (\<lambda>rule s. if rhs1 rule < length (viterbi s)
                      then efold (binary_right_sibling p item x rule) (viterbi s ! rhs1 rule) s
                      else Inl IndexError)
       (rbinary_rules (grammar p) (label item)) st"

definition update_maxA :: "pstate \<Rightarrow> pstate" where
  "update_maxA st = (if length (agenda st) > maxA st then st\<lparr>maxA := length (agenda st)\<rparr> else st)"

text \<open>
  The expansion of a popped item that is not the goal: the beam check on the item's
  own span (its \<^verbatim>\<open>continue\<close> leaves the rest of the loop body out, the update of
  \<open>maxA\<close> included), then the unary, binary-left and binary-right sections.
\<close>

definition expand :: "params \<Rightarrow> SmallChartItem \<Rightarrow> LCFRSEdge \<Rightarrow> pstate \<Rightarrow> error + pstate" where
  "expand p item edge st =
     (let x = inside edge
      in if beamwidth p \<noteq> 0 \<and> beam_get (beam st) (vec item) > beamwidth p then Inr st
         else
           let st1 = (if beamwidth p \<noteq> 0 then st\<lparr>beam := beam_inc (beam st) (vec item)\<rparr> else st)
           in ebind (efold (unary_rule p item x) (unary_rules (grammar p) (label item)) st1)
                (\<lambda>st2. ebind (binary_left p item x st2)
                   (\<lambda>st3. ebind (binary_right p item x st3)
                      (\<lambda>st4. Inr (update_maxA st4)))))"

text \<open>
  One turn of the \<^verbatim>\<open>while agenda.length\<close> loop after \<^verbatim>\<open>popentry\<close>: the popped edge
  goes to the chart and the Viterbi index (with its score replaced by its inside, as
  \<^verbatim>\<open>iscore\<close> mutates the edge object both hold). The flag of the result says whether
  the loop is left by \<^verbatim>\<open>break\<close>.
\<close>

definition parse_step ::
  "params \<Rightarrow> SmallChartItem \<Rightarrow> LCFRSEdge \<Rightarrow> pstate \<Rightarrow> error + (pstate \<times> bool)" where
  "parse_step p item edge st =
     (case map_of (chart st) item of
        None \<Rightarrow> Inl KeyError
      | Some es \<Rightarrow>
          if length (viterbi st) \<le> label item then Inl IndexError
          else
          let st1 = st\<lparr>chart := AList.update item (es @ [iscore edge]) (chart st),
                       viterbi := (viterbi st)
                         [label item := AList.update item (iscore edge) (viterbi st ! label item)]\<rparr>
          in if label item = label (goal p) \<and> vec item = vec (goal p) then
               (if \<not> exhaustive p then Inr (st1, True) else Inr (update_maxA st1, False))
             else map_sum id (\<lambda>s. (s, False)) (expand p item edge st1))"

text \<open>
  The loop may run forever (a cycle of rules with negative costs keeps improving an
  item), so it takes fuel: one unit per popped entry, \<open>None\<close> when the fuel runs out
  with entries left on the agenda.
\<close>

fun parse_loop :: "nat \<Rightarrow> params \<Rightarrow> pstate \<Rightarrow> (error + pstate) option" where
  "parse_loop 0 p st =
     (case agenda_popentry score (agenda st) of
        None \<Rightarrow> Some (Inr st)
      | Some (entry, ag) \<Rightarrow> None)"
| "parse_loop (Suc n) p st =
     (case agenda_popentry score (agenda st) of
        None \<Rightarrow> Some (Inr st)
      | Some (entry, ag) \<Rightarrow>
          (case parse_step p (fst entry) (snd entry) (st\<lparr>agenda := ag\<rparr>) of
             Inl err \<Rightarrow> Some (Inl err)
           | Inr (st', brk) \<Rightarrow> if brk then Some (Inr st') else parse_loop n p st'))"

subsection \<open>The result\<close>

fun str_nat :: "nat \<Rightarrow> string" where
  "str_nat n =
     (if n < 10 then [char_of (48 + n)] else str_nat (n div 10) @ [char_of (48 + n mod 10)])"

declare str_nat.simps [simp del]

text \<open>
  The statistics \<open>"agenda max %d, now %d, items %d (%d labels), edges %d, blocked %d"\<close>:
  the items are the chart entries with a non-empty edge list, the labels the non-empty
  dictionaries of the Viterbi index.
\<close>

definition stats :: "params \<Rightarrow> pstate \<Rightarrow> string" where
  "stats p st =
     ''agenda max '' @ str_nat (maxA st) @ '', now '' @ str_nat (length (agenda st))
     @ '', items '' @ str_nat (length (filter (\<lambda>kv. snd kv \<noteq> []) (chart st)))
     @ '' ('' @ str_nat (length (filter (\<lambda>d. d \<noteq> []) (viterbi st)))
     @ '' labels), edges '' @ str_nat (sum_list (map (\<lambda>kv. length (snd kv)) (chart st)))
     @ '', blocked '' @ str_nat (unat (blocked st))"

datatype parse_result =
  Returned "(SmallChartItem \<times> LCFRSEdge list) list" SmallChartItem string
| Longsent

definition initial_state :: "Grammar \<Rightarrow> pstate" where
  "initial_state g =
     \<lparr>agenda = [], chart = [], viterbi = replicate (length (toid g)) [], blocked = 0,
      warnings = [], beam = [], maxA = 0\<rparr>"

definition finish :: "params \<Rightarrow> pstate \<Rightarrow> parse_result" where
  "finish p st =
     (if map_of (chart st) (goal p) \<noteq> None then Returned (chart st) (goal p) (stats p st)
      else Returned (chart st) NONE (''no parse '' @ stats p st))"

text \<open>
  \<^verbatim>\<open>parse(sent, grammar, tags, start, exhaustive, whitelist, splitprune, markorigin,
  estimates, beamwidth)\<close>, its arguments gathered in \<open>p\<close>. A sentence of 64 words or
  more is handed to \<^verbatim>\<open>parse_longsent\<close>, which is not modelled: the result is then
  \<open>Longsent\<close>. The outer \<open>option\<close> is \<open>None\<close> when the fuel of the agenda loop runs out.
\<close>

definition parse :: "nat \<Rightarrow> params \<Rightarrow> (error + parse_result) option" where
  "parse fuel p =
     (case map_of (toid (grammar p)) ''Epsilon'' of
        None \<Rightarrow> Some (Inl KeyError)
      | Some Epsilon \<Rightarrow>
          if 64 \<le> length (sent p) then Some (Inr Longsent)
          else
            (case scan p Epsilon 0 (sent p) (initial_state (grammar p)) of
               Inl err \<Rightarrow> Some (Inl err)
             | Inr (NotCovered st msg) \<Rightarrow> Some (Inr (Returned (chart st) NONE msg))
             | Inr (Scanned st) \<Rightarrow>
                 (case parse_loop fuel p st of
                    None \<Rightarrow> None
                  | Some (Inl err) \<Rightarrow> Some (Inl err)
                  | Some (Inr st') \<Rightarrow> Some (Inr (finish p st')))))"

section \<open>The cases of process_edge as the specification lists them\<close>

definition in_agenda :: "pstate \<Rightarrow> SmallChartItem \<Rightarrow> bool" where
  "in_agenda st k = agenda_contains (agenda st) k"

definition in_chart :: "pstate \<Rightarrow> SmallChartItem \<Rightarrow> bool" where
  "in_chart st k = (map_of (chart st) k \<noteq> None)"

text \<open>
  The conditions of the five cases, each as the specification words it: the item is
  new; first-parse mode and the item is on the agenda; the item is on the agenda and
  the new inside is strictly smaller than that of the agenda's edge; the item is not
  on the agenda and the new inside is strictly smaller than that of the Viterbi edge;
  exhaustive mode. The cases are tried in this order: \<open>first_case\<close> gives the number of
  the first condition that holds, and 0 when none does.
\<close>

definition five_cases :: "pstate \<Rightarrow> SmallChartItem \<Rightarrow> real \<Rightarrow> bool \<Rightarrow> bool list" where
  "five_cases st newitem ins exh =
     [\<not> in_agenda st newitem \<and> \<not> in_chart st newitem,
      \<not> exh \<and> in_agenda st newitem,
      in_agenda st newitem \<and> ins < inside (the (map_of (agenda st) newitem)),
      \<not> in_agenda st newitem
        \<and> ins < inside (the (map_of (viterbi st ! label newitem) newitem)),
      exh]"

fun first_case :: "bool list \<Rightarrow> nat" where
  "first_case [] = 0"
| "first_case (c # cs) =
     (if c then 1 else (case first_case cs of 0 \<Rightarrow> 0 | Suc n \<Rightarrow> Suc (Suc n)))"

text \<open>
  What the parser keeps true of its state: an item on the agenda has its chart entry,
  and an item of the chart that has left the agenda has its Viterbi edge.
\<close>

definition consistent_for :: "pstate \<Rightarrow> SmallChartItem \<Rightarrow> bool" where
  "consistent_for st k =
     ((in_agenda st k \<longrightarrow> in_chart st k) \<and>
      (in_chart st k \<and> \<not> in_agenda st k
         \<longrightarrow> label k < length (viterbi st) \<and> map_of (viterbi st ! label k) k \<noteq> None))"

section \<open>Invariants of the parser state\<close>

text \<open>No item of the agenda, the chart or the Viterbi index covers position \<open>i\<close>.\<close>

definition misses :: "nat \<Rightarrow> pstate \<Rightarrow> bool" where
  "misses i st =
     ((\<forall>k \<in> fst ` set (agenda st). \<not> bit (vec k) i) \<and>
      (\<forall>k \<in> fst ` set (chart st). \<not> bit (vec k) i) \<and>
      (\<forall>d \<in> set (viterbi st). \<forall>k \<in> fst ` set d. \<not> bit (vec k) i))"

text \<open>
  Position \<open>i\<close> of a tagged sentence is skipped by the scan: no lexical rule of the word
  matches the gold tag, the tag is a label of the grammar, and the score of the bare
  tag item, 0 plus the outside estimate, is above 300.
\<close>

definition no_rule_matches :: "params \<Rightarrow> nat \<Rightarrow> bool" where
  "no_rule_matches p i =
     (\<forall>t \<in> set (lexical (grammar p) (sent p ! i)). \<not> tag_matches p i (lex_lhs t))"



text \<open>
  Position \<open>i\<close> has no matching lexical rule and no usable gold tag: no tags are given,
  or the tag of the position is not a label of the grammar.
\<close>

definition uncovered :: "params \<Rightarrow> nat \<Rightarrow> bool" where
  "uncovered p i =
     (i < length (sent p) \<and> no_rule_matches p i \<and>
      \<not> (tags_given p \<and> map_of (toid (grammar p)) (the (tags p) ! i) \<noteq> None))"

text \<open>
  The state after the bare tag item of position \<open>j\<close> has been put on the agenda, with
  the score \<open>sc\<close>.
\<close>

definition tag_state :: "params \<Rightarrow> nat \<Rightarrow> nat \<Rightarrow> real \<Rightarrow> pstate \<Rightarrow> pstate" where
  "tag_state p Epsilon j sc st1 =
     st1\<lparr>agenda := agenda_setitem (agenda st1)
                    (new_ChartItem (the (map_of (toid (grammar p)) (the (tags p) ! j))) (push_bit j 1))
                    (new_Edge sc 0 0 (-1) (new_ChartItem Epsilon (word_of_nat j)) NONE),
         chart := AList.update
                    (new_ChartItem (the (map_of (toid (grammar p)) (the (tags p) ! j))) (push_bit j 1))
                    [] (chart st1)\<rparr>"

text \<open>The token that the message names: the gold tag when tags are given, else the word.\<close>

definition token :: "params \<Rightarrow> nat \<Rightarrow> string" where
  "token p i = (if tags_given p then the (tags p) ! i else sent p ! i)"

text \<open>
  The scan of the sentence raises an exception: \<open>KeyError\<close> when the grammar has no label
  \<open>Epsilon\<close>, \<open>IndexError\<close> when there are fewer gold tags than words, and what
  \<^verbatim>\<open>process_edge\<close> raises on a whitelist entry of the wrong type.
\<close>

definition scan_raises :: "params \<Rightarrow> bool" where
  "scan_raises p =
     (case map_of (toid (grammar p)) ''Epsilon'' of
        None \<Rightarrow> True
      | Some Epsilon \<Rightarrow>
          (case scan p Epsilon 0 (sent p) (initial_state (grammar p)) of
             Inl err \<Rightarrow> True
           | Inr res \<Rightarrow> False))"

section \<open>Concrete inputs\<close>


text \<open>
  States of the parser around one item: \<open>fresh_state\<close> has never seen it,
  \<open>waiting_state\<close> has it on the agenda with an edge of inside 5 (and its empty chart
  entry), \<open>popped_state\<close> has popped that edge: it is in the chart and in the Viterbi
  index and no longer on the agenda.
\<close>

definition item0 :: SmallChartItem where
  "item0 = new_ChartItem 1 1"

definition edge5 :: LCFRSEdge where
  "edge5 = new_Edge 5 5 5 (-1) (new_ChartItem 0 0) NONE"

definition fresh_state :: pstate where
  "fresh_state =
     \<lparr>agenda = [], chart = [], viterbi = [[], []], blocked = 0, warnings = [], beam = [],
      maxA = 0\<rparr>"

definition waiting_state :: pstate where
  "waiting_state = fresh_state\<lparr>agenda := [(item0, edge5)], chart := [(item0, [])]\<rparr>"

definition popped_state :: pstate where
  "popped_state =
     fresh_state\<lparr>chart := [(item0, [edge5])], viterbi := [[], [(item0, edge5)]]\<rparr>"

text \<open>
  A grammar with the labels \<open>Epsilon\<close>, \<open>S\<close> and \<open>N\<close>, one lexical rule \<open>N \<rightarrow> b\<close> and no
  other rule; an \<open>SX\<close> estimate that is 301 for an item starting at position 0 and 0
  elsewhere; the sentence \<open>a b\<close> with the gold tags \<open>N N\<close>, and the same with the tags
  \<open>N Q\<close>, where \<open>Q\<close> is not a label.
\<close>

definition tag_grammar :: Grammar where
  "tag_grammar =
     \<lparr>toid = [(''Epsilon'', 0), (''S'', 1), (''N'', 2)],
      tolabel = (\<lambda>l. if l = 0 then ''Epsilon'' else if l = 1 then ''S'' else ''N''),
      lexical = (\<lambda>w. if w = ''b'' then [\<lparr>lex_lhs = 2, lex_prob = 0\<rparr>] else []),
      unary = (\<lambda>l. []), lbinary = (\<lambda>l. []), rbinary = (\<lambda>l. []), bylhs = [],
      fanout = (\<lambda>l. 1), numrules = 0, nonterminals = 3\<rparr>"






text \<open>
  The same grammar without tags and without estimate: the sentence \<open>xx\<close>, a word that
  the grammar does not know; the sentence \<open>b\<close> with the start symbol \<open>S\<close>, which has no
  rule; and the sentence \<open>b\<close> with the start symbol \<open>N\<close>.
\<close>

definition unknown_params :: params where
  "unknown_params =
     \<lparr>sent = [''xx''], grammar = tag_grammar, tags = None, start = 1,
      exhaustive = False, whitelist = None, splitprune = False, markorigin = False,
      estimates = None, beamwidth = 0\<rparr>"

definition noparse_params :: params where
  "noparse_params = unknown_params\<lparr>sent := [''b'']\<rparr>"

definition success_params :: params where
  "success_params = unknown_params\<lparr>sent := [''b''], start := 2\<rparr>"

text \<open>
  The item of the word \<open>b\<close> at position 0 and its edge; the state of the parser after
  the scan of the sentence \<open>b\<close>, and after its agenda loop.
\<close>

definition b_item :: SmallChartItem where
  "b_item = new_ChartItem 2 1"

definition b_edge :: LCFRSEdge where
  "b_edge = new_Edge 0 0 0 (-1) (new_ChartItem 0 0) NONE"

definition b_scanned :: pstate where
  "b_scanned =
     \<lparr>agenda = [(b_item, b_edge)], chart = [(b_item, [])], viterbi = [[], [], []],
      blocked = 0, warnings = [], beam = [], maxA = 0\<rparr>"

definition b_done :: pstate where
  "b_done =
     \<lparr>agenda = [], chart = [(b_item, [b_edge])], viterbi = [[], [], [(b_item, b_edge)]],
      blocked = 0, warnings = [], beam = [], maxA = 0\<rparr>"

text \<open>
  The sentence \<open>b xx\<close> with a whitelist for split pruning with \<^verbatim>\<open>markorigin\<close>: every
  entry is a list of dictionaries, except that of \<open>N\<close>, which is \<open>None\<close>.
\<close>

definition split_params :: params where
  "split_params =
     unknown_params\<lparr>sent := [''b'', ''xx''],
       whitelist := Some (\<lambda>l. if l = 2 then WNone else WList [[]]),
       splitprune := True, markorigin := True\<rparr>"

section \<open>Facts about process_edge\<close>

lemma map_of_setitem:
  "map_of (agenda_setitem ag k v) = (map_of ag)(k \<mapsto> v)"
  by (simp add: agenda_setitem_def update_conv')

lemma map_of_setifbetter:
  "map_of (agenda_setifbetter sc ag k v) k' =
     (if k' = k then
        (case map_of ag k of None \<Rightarrow> Some v
         | Some old \<Rightarrow> if sc v < sc old then Some v else Some old)
      else map_of ag k')"
  by (simp add: agenda_setifbetter_def map_of_setitem split: option.splits)

lemma first_case_five:
  "first_case [c1, c2, c3, c4, c5] =
     (if c1 then 1 else if c2 then 2 else if c3 then 3 else if c4 then 4 else if c5 then 5 else 0)"
  by simp

lemma process_edge_case1:
  assumes "first_case (five_cases st newitem ins exh) = 1"
  shows "process_edge newitem sc ins pr rn l r st exh wl sp mo =
     (case whitelist_pass wl sp mo newitem of
        Inl err \<Rightarrow> Inl err
      | Inr False \<Rightarrow> Inr (st\<lparr>blocked := blocked st + 1\<rparr>, False)
      | Inr True \<Rightarrow> Inr (st\<lparr>agenda := agenda_setitem (agenda st) newitem (new_Edge sc ins pr rn l r),
                        chart := AList.update newitem [] (chart st)\<rparr>, True))"
  using assms unfolding five_cases_def first_case_five
  by (auto simp add: in_agenda_def in_chart_def process_edge_def Let_def split: if_splits)

lemma process_edge_case2:
  assumes "first_case (five_cases st newitem ins exh) = 2"
  shows "process_edge newitem sc ins pr rn l r st exh wl sp mo =
     Inr (st\<lparr>agenda := agenda_setifbetter score (agenda st) newitem (new_Edge sc ins pr rn l r)\<rparr>, True)"
  using assms unfolding five_cases_def first_case_five
  by (auto simp add: in_agenda_def in_chart_def process_edge_def Let_def split: if_splits)

lemma process_edge_case3:
  assumes "first_case (five_cases st newitem ins exh) = 3" and "map_of (chart st) newitem = Some es"
  shows "process_edge newitem sc ins pr rn l r st exh wl sp mo =
     Inr (st\<lparr>agenda := agenda_setitem (agenda st) newitem (new_Edge sc ins pr rn l r),
              chart := AList.update newitem (es @ [iscore (the (map_of (agenda st) newitem))]) (chart st)\<rparr>, True)"
  using assms unfolding five_cases_def first_case_five
  by (auto simp add: in_agenda_def in_chart_def process_edge_def Let_def split: if_splits)

lemma process_edge_case4:
  assumes "first_case (five_cases st newitem ins exh) = 4"
    and "label newitem < length (viterbi st)"
    and "map_of (viterbi st ! label newitem) newitem \<noteq> None"
  shows "process_edge newitem sc ins pr rn l r st exh wl sp mo =
     Inr (st\<lparr>agenda := agenda_setitem (agenda st) newitem (new_Edge sc ins pr rn l r),
              warnings := warnings st @ [newitem]\<rparr>, True)"
  using assms unfolding five_cases_def first_case_five
  by (auto simp add: in_agenda_def in_chart_def process_edge_def Let_def split: if_splits)

lemma process_edge_case5:
  assumes "first_case (five_cases st newitem ins exh) = 5" and "map_of (chart st) newitem = Some es"
    and "in_agenda st newitem \<or> (label newitem < length (viterbi st)
           \<and> map_of (viterbi st ! label newitem) newitem \<noteq> None)"
  shows "process_edge newitem sc ins pr rn l r st exh wl sp mo =
     Inr (st\<lparr>chart := AList.update newitem (es @ [iscore (new_Edge sc ins pr rn l r)]) (chart st)\<rparr>, True)"
  using assms unfolding five_cases_def first_case_five
  by (auto simp add: in_agenda_def in_chart_def process_edge_def Let_def split: if_splits)

lemma process_edge_case0:
  assumes "first_case (five_cases st newitem ins exh) = 0"
    and "label newitem < length (viterbi st)"
    and "map_of (viterbi st ! label newitem) newitem \<noteq> None"
  shows "process_edge newitem sc ins pr rn l r st exh wl sp mo = Inr (st, True)"
  using assms unfolding five_cases_def first_case_five
  by (auto simp add: in_agenda_def in_chart_def process_edge_def Let_def split: if_splits)

lemma case0_conditions:
  "first_case (five_cases st newitem ins exh) = 0 \<longleftrightarrow>
     (\<not> exh \<and> \<not> in_agenda st newitem \<and> in_chart st newitem
      \<and> \<not> ins < inside (the (map_of (viterbi st ! label newitem) newitem)))"
  unfolding five_cases_def first_case_five by auto

lemma nextset_nonzero: "v \<noteq> 0 \<Longrightarrow> nextset v 0 \<noteq> -1"
proof -
  assume "v \<noteq> 0"
  then obtain i where i: "bit v i" by (auto simp: bit_eq_iff)
  then have "i < 64" using bit_imp_le_length [of v i] by simp
  with i have "i \<in> set (filter (bit v) [0..<64])" by simp
  then have "filter (bit v) [0..<64] \<noteq> []" by (metis empty_iff empty_set)
  then show ?thesis by (auto simp: nextset_def split: list.splits)
qed

lemma split_loop_empty_dict:
  "vec newitem \<noteq> 0 \<Longrightarrow> split_loop False (WDict []) (vec newitem) (nextset (vec newitem) 0) 0 = Inr False"
  using nextset_nonzero [of "vec newitem"]
  by (subst split_loop.simps) (simp add: component_dict_def Let_def)

lemma whitelist_pass_empty_dict:
  assumes "wl = Some w" "w (label newitem) = WDict []" "sp \<longrightarrow> \<not> mo \<and> vec newitem \<noteq> 0"
  shows "whitelist_pass wl sp mo newitem = Inr False"
proof (cases sp)
  case True
  with assms have "split_loop mo (WDict []) (vec newitem) (nextset (vec newitem) 0) 0 = Inr False"
    using split_loop_empty_dict [of newitem] by simp
  with assms True show ?thesis by (simp add: whitelist_pass_def)
next
  case False
  with assms show ?thesis by (simp add: whitelist_pass_def)
qed

lemma whitelist_pass_none:
  assumes "wl = None \<or> (\<exists>w. wl = Some w \<and> w (label newitem) = WNone)"
  shows "whitelist_pass wl sp mo newitem = Inr True"
  using assms by (auto simp: whitelist_pass_def)

lemma process_edge_blocked:
  assumes "process_edge newitem sc ins pr rn l r st exh wl sp mo = Inr (st', fresh)"
  shows "(fresh \<longrightarrow> blocked st' = blocked st) \<and>
         (\<not> fresh \<longrightarrow> st' = st\<lparr>blocked := blocked st + 1\<rparr> \<and> whitelist_pass wl sp mo newitem = Inr False
              \<and> \<not> in_agenda st newitem \<and> \<not> in_chart st newitem)"
  using assms
  by (auto simp: process_edge_def Let_def in_agenda_def in_chart_def
      split: if_splits sum.splits bool.splits option.splits)

section \<open>Facts about the concrete states\<close>

lemma consistent_examples:
  "consistent_for fresh_state item0" "consistent_for waiting_state item0"
  "consistent_for popped_state item0"
  by (simp_all add: consistent_for_def in_agenda_def in_chart_def agenda_contains_def
      fresh_state_def waiting_state_def popped_state_def item0_def
      new_ChartItem_def)

lemma first_case_examples:
  "first_case (five_cases fresh_state item0 3 False) = 1"
  "first_case (five_cases waiting_state item0 3 False) = 2"
  "first_case (five_cases waiting_state item0 3 True) = 3"
  "first_case (five_cases popped_state item0 3 False) = 4"
  "first_case (five_cases popped_state item0 7 True) = 5"
  "first_case (five_cases popped_state item0 7 False) = 0"
  by (simp_all add: five_cases_def in_agenda_def in_chart_def agenda_contains_def
      fresh_state_def waiting_state_def popped_state_def item0_def
      edge5_def new_Edge_def new_ChartItem_def)





lemma unknown_params_facts:
  "uncovered unknown_params 0" "length (sent unknown_params) = 1"
  "token unknown_params 0 = ''xx''"
  by code_simp+

lemma noparse_params_facts:
  "scan noparse_params (the (map_of (toid (grammar noparse_params)) ''Epsilon'')) 0
     (sent noparse_params) (initial_state (grammar noparse_params)) = Inr (Scanned b_scanned)"
  "parse_loop 5 noparse_params b_scanned = Some (Inr b_done)"
  "map_of (chart b_done) (goal noparse_params) = None"
  "''no parse '' @ stats noparse_params b_done
     = ''no parse agenda max 0, now 0, items 1 (1 labels), edges 1, blocked 0''"
  by code_simp+

lemma success_params_facts:
  "parse 5 success_params = Some (Inr (Returned [(b_item, [b_edge])] b_item
     ''agenda max 0, now 0, items 1 (1 labels), edges 1, blocked 0''))"
  "goal success_params = b_item" "b_item \<noteq> NONE"
  by code_simp+

lemma split_params_facts:
  "length (sent split_params) < 64" "\<not> scan_raises split_params" "uncovered split_params 1"
  "token split_params 0 = ''b''" "token split_params 1 = ''xx''"
  "(case parse 5 split_params of
      Some (Inr (Returned ch g m)) \<Rightarrow> m \<noteq> not_covered_msg ''b'' | _ \<Rightarrow> True)"
  by code_simp+

lemma unknown_params_scan:
  "length (sent unknown_params) < 64" "\<not> scan_raises unknown_params"
  by code_simp+

lemma noparse_params_eps:
  "length (sent noparse_params) < 64"
  "map_of (toid (grammar noparse_params)) ''Epsilon'' = Some 0"
  "scan noparse_params 0 0 (sent noparse_params) (initial_state (grammar noparse_params))
     = Inr (Scanned b_scanned)"
  by code_simp+

section \<open>Facts about the agenda loop\<close>





lemma misses_beam [simp]: "misses i (st\<lparr>beam := b\<rparr>) = misses i st"
  by (simp add: misses_def)

lemma misses_maxA [simp]: "misses i (update_maxA st) = misses i st"
  by (simp add: misses_def update_maxA_def)

















lemma scan_terminals_no_match:
  assumes "\<forall>t \<in> set ts. \<not> tag_matches p i (lex_lhs t)"
  shows "efold (scan_terminal p i item) ts sr = Inr sr"
  using assms by (induction ts) (simp_all add: scan_terminal_def)






lemma scan_Cons:
  assumes "\<not> (tags_given p \<and> length (the (tags p)) \<le> j)"
    and "efold (scan_terminal p j (new_ChartItem Epsilon (word_of_nat j))) (lexical (grammar p) w)
           (st, False) = Inr (st1, recognized)"
  shows "scan p Epsilon j (w # ws) st =
     (if \<not> recognized \<and> tags_given p \<and> map_of (toid (grammar p)) (the (tags p) ! j) \<noteq> None then
        (case add_estimate (estimates p) 0 (the (map_of (toid (grammar p)) (the (tags p) ! j)))
                1 (int j) (lensent p - 1 - int j) 0 of
           None \<Rightarrow> scan p Epsilon (Suc j) ws st1
         | Some sc \<Rightarrow> scan p Epsilon (Suc j) ws (tag_state p Epsilon j sc st1))
      else if \<not> recognized then
        Inr (NotCovered st1 (not_covered_msg (if tags_given p then the (tags p) ! j else w)))
      else scan p Epsilon (Suc j) ws st1)"
  using assms by (cases recognized) (auto simp add: Let_def tag_state_def split: option.splits)

lemma drop_Cons_nth:
  assumes "w # ws = drop j xs"
  shows "j < length xs \<and> w = xs ! j \<and> ws = drop (Suc j) xs"
proof -
  from assms have jl: "j < length xs"
    by (metis drop_all list.distinct(1) not_le_imp_less)
  with assms show ?thesis
    by (metis Cons_nth_drop_Suc list.inject)
qed

lemma scan_not_covered_msg:
  assumes "scan p Epsilon j ws st = Inr (NotCovered st' msg)" and "ws = drop j (sent p)"
  shows "\<exists>i. j \<le> i \<and> i < length (sent p) \<and> msg = not_covered_msg (token p i)"
  using assms
proof (induction ws arbitrary: j st)
  case Nil
  then show ?case by simp
next
  case (Cons w ws)
  from drop_Cons_nth [OF Cons.prems(2)] have jl: "j < length (sent p)"
    and w: "w = sent p ! j" and ws: "ws = drop (Suc j) (sent p)" by auto
  have tk: "(if tags_given p then the (tags p) ! j else w) = token p j"
    by (simp add: token_def w)
  from Cons.prems(1) have noerr: "\<not> (tags_given p \<and> length (the (tags p)) \<le> j)"
    by (auto split: if_splits)
  from Cons.prems(1) noerr obtain st1 recognized where
    ef: "efold (scan_terminal p j (new_ChartItem Epsilon (word_of_nat j))) (lexical (grammar p) w)
           (st, False) = Inr (st1, recognized)"
    by (auto simp: Let_def split: sum.splits if_splits)
  note unf = scan_Cons [OF noerr ef, of ws, unfolded tk]
  have later: ?case if "scan p Epsilon (Suc j) ws s = Inr (NotCovered st' msg)" for s
  proof -
    from Cons.IH [OF that ws] obtain i where "Suc j \<le> i" "i < length (sent p)"
      "msg = not_covered_msg (token p i)" by blast
    then have "j \<le> i \<and> i < length (sent p) \<and> msg = not_covered_msg (token p i)" by simp
    then show ?thesis by blast
  qed
  from Cons.prems(1) [unfolded unf] later jl show ?case
    by (auto split: if_splits option.splits)
qed

lemma scan_uncovered_reported:
  assumes "ws = drop j (sent p)" and "uncovered p i" and "j \<le> i"
    and "\<forall>err. scan p Epsilon j ws st \<noteq> Inl err"
  shows "\<exists>st' k. j \<le> k \<and> k \<le> i \<and>
           scan p Epsilon j ws st = Inr (NotCovered st' (not_covered_msg (token p k)))"
  using assms(1,3,4)
proof (induction ws arbitrary: j st)
  case Nil
  from assms(2) have "i < length (sent p)" by (simp add: uncovered_def)
  with Nil show ?case by simp
next
  case (Cons w ws)
  from drop_Cons_nth [OF Cons.prems(1)] have jl: "j < length (sent p)"
    and w: "w = sent p ! j" and ws: "ws = drop (Suc j) (sent p)" by auto
  have tk: "(if tags_given p then the (tags p) ! j else w) = token p j"
    by (simp add: token_def w)
  from Cons.prems(3) have noerr: "\<not> (tags_given p \<and> length (the (tags p)) \<le> j)"
    by (auto split: if_splits)
  from Cons.prems(3) noerr obtain st1 recognized where
    ef: "efold (scan_terminal p j (new_ChartItem Epsilon (word_of_nat j))) (lexical (grammar p) w)
           (st, False) = Inr (st1, recognized)"
    by (cases "efold (scan_terminal p j (new_ChartItem Epsilon (word_of_nat j)))
           (lexical (grammar p) w) (st, False)") (auto simp: Let_def)
  note unf = scan_Cons [OF noerr ef, of ws, unfolded tk]
  have here: "\<exists>st' k. j \<le> k \<and> k \<le> i \<and>
      Inr (NotCovered st1 (not_covered_msg (token p j))) = Inr (NotCovered st' (not_covered_msg (token p k)))"
    using Cons.prems(2) by blast
  show ?case
  proof (cases "j = i")
    case True
    with assms(2) w have nm: "\<forall>t \<in> set (lexical (grammar p) w). \<not> tag_matches p j (lex_lhs t)"
      and nt: "\<not> (tags_given p \<and> map_of (toid (grammar p)) (the (tags p) ! j) \<noteq> None)"
      by (auto simp: uncovered_def no_rule_matches_def)
    from scan_terminals_no_match [OF nm, of "new_ChartItem Epsilon (word_of_nat j)" "(st, False)"] ef
    have "\<not> recognized" by simp
    with unf nt have "scan p Epsilon j (w # ws) st = Inr (NotCovered st1 (not_covered_msg (token p j)))"
      by auto
    with here show ?thesis by simp
  next
    case False
    with Cons.prems(2) have le: "Suc j \<le> i" by simp
    have later: "\<exists>st' k. j \<le> k \<and> k \<le> i \<and>
           scan p Epsilon j (w # ws) st = Inr (NotCovered st' (not_covered_msg (token p k)))"
      if eq: "scan p Epsilon j (w # ws) st = scan p Epsilon (Suc j) ws s" for s
    proof -
      from Cons.prems(3) eq have "\<forall>err. scan p Epsilon (Suc j) ws s \<noteq> Inl err" by simp
      from Cons.IH [OF ws le this] show ?thesis unfolding eq by (meson Suc_leD)
    qed
    show ?thesis
    proof (cases "\<not> recognized \<and> tags_given p \<and> map_of (toid (grammar p)) (the (tags p) ! j) \<noteq> None")
      case True
      show ?thesis
      proof (cases "add_estimate (estimates p) 0 (the (map_of (toid (grammar p)) (the (tags p) ! j)))
                  1 (int j) (lensent p - 1 - int j) 0")
        case None
        with True unf have "scan p Epsilon j (w # ws) st = scan p Epsilon (Suc j) ws st1" by simp
        from later [OF this] show ?thesis .
      next
        case (Some sc)
        with True unf have "scan p Epsilon j (w # ws) st
            = scan p Epsilon (Suc j) ws (tag_state p Epsilon j sc st1)" by simp
        from later [OF this] show ?thesis .
      qed
    next
      case nt: False
      show ?thesis
      proof (cases recognized)
        case True
        with nt unf have "scan p Epsilon j (w # ws) st = scan p Epsilon (Suc j) ws st1" by simp
        from later [OF this] show ?thesis .
      next
        case nr: False
        with nt unf have "scan p Epsilon j (w # ws) st
            = Inr (NotCovered st1 (not_covered_msg (token p j)))" by auto
        with here show ?thesis by simp
      qed
    qed
  qed
qed

section \<open>Results\<close>

text \<open>
  C9. The less-than comparison of chart items (operator code 0) holds exactly when the
  label of the first is smaller or the vector of the first is smaller, a disjunction
  and not a lexicographic order; and there are two different chart items each of which
  is less than the other, so the comparison is not antisymmetric and not a strict
  order.
\<close>

theorem richcmp_lt_disjunctive:
  "richcmp a b 0 = Some (ChartItem.label a < ChartItem.label b \<or> ChartItem.vec a < ChartItem.vec b) \<and>
   (\<exists>c d. c \<noteq> d \<and> richcmp c d 0 = Some True \<and> richcmp d c 0 = Some True)"
proof
  show "richcmp a b 0 = Some (ChartItem.label a < ChartItem.label b \<or> ChartItem.vec a < ChartItem.vec b)"
    by (simp add: richcmp_def)
next
  let ?c = "\<lparr>ChartItem.label = 0, ChartItem.vec = 1\<rparr>"
  let ?d = "\<lparr>ChartItem.label = 1, ChartItem.vec = 0\<rparr>"
  have "?c \<noteq> ?d \<and> richcmp ?c ?d 0 = Some True \<and> richcmp ?d ?c 0 = Some True"
    by (simp add: richcmp_def)
  then show "\<exists>c d. c \<noteq> d \<and> richcmp c d 0 = Some True \<and> richcmp d c 0 = Some True"
    by blast
qed

theorem richcmp_lt_disjunctive_witness:
  "richcmp \<lparr>ChartItem.label = 0, ChartItem.vec = 1\<rparr> \<lparr>ChartItem.label = 1, ChartItem.vec = 0\<rparr> 0 = Some True \<and>
   richcmp \<lparr>ChartItem.label = 1, ChartItem.vec = 0\<rparr> \<lparr>ChartItem.label = 0, ChartItem.vec = 1\<rparr> 0 = Some True"
  using richcmp_lt_disjunctive [of "\<lparr>ChartItem.label = 0, ChartItem.vec = 1\<rparr>" "\<lparr>ChartItem.label = 1, ChartItem.vec = 0\<rparr>"]
    richcmp_lt_disjunctive [of "\<lparr>ChartItem.label = 1, ChartItem.vec = 0\<rparr>" "\<lparr>ChartItem.label = 0, ChartItem.vec = 1\<rparr>"]
  by simp



text \<open>
  C4. The claim: for every candidate edge exactly one of five cases applies, tried in
  this order: the item is new (prune against the whitelist, then insert it into the
  agenda with an empty chart entry); first-parse mode and the item is on the agenda
  (\<open>setifbetter\<close>: the agenda's edge is replaced exactly when the new score is lower);
  the item is on the agenda and the new inside is strictly smaller (replace the
  agenda's edge and append the old one to the chart entry); the item is not on the
  agenda and the new inside is strictly smaller than that of the Viterbi edge
  (re-insert, log a warning); otherwise, in exhaustive mode, append the edge to the
  chart entry.

  As amended: at most one of the five cases applies, the first whose condition holds,
  with the effects listed; when none applies (first-parse mode, the item is in the
  chart and no longer on the agenda, and the new inside is not strictly smaller than
  that of its Viterbi edge) the edge is dropped and the state is unchanged. The
  theorem is about a state that is consistent for the item, as the parser keeps it:
  an item of the agenda has a chart entry, an item of the chart that left the agenda
  has a Viterbi edge (otherwise the lookups of the source raise \<open>KeyError\<close>).
\<close>

theorem process_edge_cases:
  fixes newitem sc ins pr rn l r st exh wl sp mo
  defines "e \<equiv> new_Edge sc ins pr rn l r"
    and "res \<equiv> process_edge newitem sc ins pr rn l r st exh wl sp mo"
    and "n \<equiv> first_case (five_cases st newitem ins exh)"
  assumes cons: "consistent_for st newitem"
  shows
    "(n = 1 \<longrightarrow>
        (whitelist_pass wl sp mo newitem = Inr True \<longrightarrow>
           res = Inr (st\<lparr>agenda := agenda_setitem (agenda st) newitem e,
                         chart := AList.update newitem [] (chart st)\<rparr>, True)) \<and>
        (whitelist_pass wl sp mo newitem = Inr False \<longrightarrow>
           res = Inr (st\<lparr>blocked := blocked st + 1\<rparr>, False))) \<and>
     (n = 2 \<longrightarrow>
        (\<exists>old. map_of (agenda st) newitem = Some old \<and>
           res = Inr (st\<lparr>agenda := agenda_setifbetter score (agenda st) newitem e\<rparr>, True) \<and>
           map_of (agenda_setifbetter score (agenda st) newitem e) newitem
             = Some (if sc < score old then e else old))) \<and>
     (n = 3 \<longrightarrow>
        (\<exists>old es. map_of (agenda st) newitem = Some old \<and> map_of (chart st) newitem = Some es \<and>
           ins < inside old \<and>
           res = Inr (st\<lparr>agenda := agenda_setitem (agenda st) newitem e,
                         chart := AList.update newitem (es @ [iscore old]) (chart st)\<rparr>, True))) \<and>
     (n = 4 \<longrightarrow>
        res = Inr (st\<lparr>agenda := agenda_setitem (agenda st) newitem e,
                      warnings := warnings st @ [newitem]\<rparr>, True)) \<and>
     (n = 5 \<longrightarrow>
        (\<exists>es. map_of (chart st) newitem = Some es \<and>
           res = Inr (st\<lparr>chart := AList.update newitem (es @ [iscore e]) (chart st)\<rparr>, True))) \<and>
     (n = 0 \<longrightarrow> \<not> exh \<and> in_chart st newitem \<and> \<not> in_agenda st newitem \<and> res = Inr (st, True)) \<and>
     n \<le> 5"
proof -
  have c1: "n = 1 \<Longrightarrow> whitelist_pass wl sp mo newitem = Inr True \<Longrightarrow>
      res = Inr (st\<lparr>agenda := agenda_setitem (agenda st) newitem e,
                    chart := AList.update newitem [] (chart st)\<rparr>, True)"
    unfolding n_def res_def e_def by (simp add: process_edge_case1)
  have c1b: "n = 1 \<Longrightarrow> whitelist_pass wl sp mo newitem = Inr False \<Longrightarrow>
      res = Inr (st\<lparr>blocked := blocked st + 1\<rparr>, False)"
    unfolding n_def res_def e_def by (simp add: process_edge_case1)
  have c2: "\<exists>old. map_of (agenda st) newitem = Some old \<and>
           res = Inr (st\<lparr>agenda := agenda_setifbetter score (agenda st) newitem e\<rparr>, True) \<and>
           map_of (agenda_setifbetter score (agenda st) newitem e) newitem
             = Some (if sc < score old then e else old)" if "n = 2"
  proof -
    from that have ia: "in_agenda st newitem"
      unfolding n_def five_cases_def first_case_five by (auto split: if_splits)
    then obtain old where old: "map_of (agenda st) newitem = Some old"
      by (auto simp: in_agenda_def agenda_contains_def)
    have "res = Inr (st\<lparr>agenda := agenda_setifbetter score (agenda st) newitem e\<rparr>, True)"
      using that unfolding n_def res_def e_def by (rule process_edge_case2)
    moreover have "map_of (agenda_setifbetter score (agenda st) newitem e) newitem
             = Some (if sc < score old then e else old)"
      using old by (simp add: map_of_setifbetter e_def new_Edge_def)
    ultimately show ?thesis using old by blast
  qed
  have c3: "\<exists>old es. map_of (agenda st) newitem = Some old \<and> map_of (chart st) newitem = Some es \<and>
           ins < inside old \<and>
           res = Inr (st\<lparr>agenda := agenda_setitem (agenda st) newitem e,
                         chart := AList.update newitem (es @ [iscore old]) (chart st)\<rparr>, True)" if "n = 3"
  proof -
    from that have ia: "in_agenda st newitem" and lt: "ins < inside (the (map_of (agenda st) newitem))"
      unfolding n_def five_cases_def first_case_five by (auto split: if_splits)
    then obtain old where old: "map_of (agenda st) newitem = Some old"
      by (auto simp: in_agenda_def agenda_contains_def)
    from ia cons obtain es where es: "map_of (chart st) newitem = Some es"
      by (auto simp: consistent_for_def in_chart_def)
    from process_edge_case3 [OF that [unfolded n_def] es, of sc pr rn l r wl sp mo] old lt es
    show ?thesis unfolding res_def e_def by auto
  qed
  have c4: "res = Inr (st\<lparr>agenda := agenda_setitem (agenda st) newitem e,
                      warnings := warnings st @ [newitem]\<rparr>, True)" if "n = 4"
  proof -
    from that have "\<not> in_agenda st newitem" "in_chart st newitem"
      unfolding n_def five_cases_def first_case_five by (auto split: if_splits)
    with cons have "label newitem < length (viterbi st)"
      "map_of (viterbi st ! label newitem) newitem \<noteq> None"
      by (auto simp: consistent_for_def)
    from process_edge_case4 [OF that [unfolded n_def] this] show ?thesis
      unfolding res_def e_def .
  qed
  have c5: "\<exists>es. map_of (chart st) newitem = Some es \<and>
           res = Inr (st\<lparr>chart := AList.update newitem (es @ [iscore e]) (chart st)\<rparr>, True)" if "n = 5"
  proof -
    from that have "in_agenda st newitem \<or> in_chart st newitem"
      unfolding n_def five_cases_def first_case_five by (auto split: if_splits)
    with cons have ic: "in_chart st newitem"
      by (auto simp: consistent_for_def)
    then obtain es where es: "map_of (chart st) newitem = Some es"
      by (auto simp: in_chart_def)
    from ic cons have "in_agenda st newitem \<or> (label newitem < length (viterbi st)
           \<and> map_of (viterbi st ! label newitem) newitem \<noteq> None)"
      by (auto simp: consistent_for_def)
    from process_edge_case5 [OF that [unfolded n_def] es this] es show ?thesis
      unfolding res_def e_def by auto
  qed
  have c0: "\<not> exh \<and> in_chart st newitem \<and> \<not> in_agenda st newitem \<and> res = Inr (st, True)" if "n = 0"
  proof -
    from that have f: "\<not> exh" "\<not> in_agenda st newitem" "in_chart st newitem"
      unfolding n_def case0_conditions by auto
    with cons have "label newitem < length (viterbi st)"
      "map_of (viterbi st ! label newitem) newitem \<noteq> None"
      by (auto simp: consistent_for_def)
    from process_edge_case0 [OF that [unfolded n_def] this] f show ?thesis
      unfolding res_def by auto
  qed
  have le: "n \<le> 5"
    unfolding n_def five_cases_def first_case_five by simp
  from c1 c1b c2 c3 c4 c5 c0 le show ?thesis by blast
qed

text \<open>
  The witness: one state per case, and the state in which no case applies.
\<close>

theorem process_edge_cases_witness:
  "consistent_for fresh_state item0 \<and> consistent_for waiting_state item0 \<and>
   consistent_for popped_state item0 \<and>
   process_edge item0 3 3 1 0 NONE NONE fresh_state False None False False
     = Inr (fresh_state\<lparr>agenda := agenda_setitem (agenda fresh_state) item0 (new_Edge 3 3 1 0 NONE NONE),
                        chart := AList.update item0 [] (chart fresh_state)\<rparr>, True) \<and>
   process_edge item0 3 3 1 0 NONE NONE waiting_state False None False False
     = Inr (waiting_state\<lparr>agenda := agenda_setifbetter score (agenda waiting_state) item0
                                       (new_Edge 3 3 1 0 NONE NONE)\<rparr>, True) \<and>
   process_edge item0 3 3 1 0 NONE NONE waiting_state True None False False
     = Inr (waiting_state\<lparr>agenda := agenda_setitem (agenda waiting_state) item0 (new_Edge 3 3 1 0 NONE NONE),
                          chart := AList.update item0 [iscore edge5] (chart waiting_state)\<rparr>, True) \<and>
   process_edge item0 3 3 1 0 NONE NONE popped_state False None False False
     = Inr (popped_state\<lparr>agenda := agenda_setitem (agenda popped_state) item0 (new_Edge 3 3 1 0 NONE NONE),
                         warnings := warnings popped_state @ [item0]\<rparr>, True) \<and>
   process_edge item0 7 7 1 0 NONE NONE popped_state True None False False
     = Inr (popped_state\<lparr>chart := AList.update item0 [edge5, iscore (new_Edge 7 7 1 0 NONE NONE)]
                                    (chart popped_state)\<rparr>, True) \<and>
   process_edge item0 7 7 1 0 NONE NONE popped_state False None False False
     = Inr (popped_state, True)"
proof -
  have wp: "whitelist_pass None False False item0 = Inr True"
    by (simp add: whitelist_pass_def)
  have a: "map_of (agenda waiting_state) item0 = Some edge5"
    "map_of (chart waiting_state) item0 = Some []"
    "map_of (chart popped_state) item0 = Some [edge5]"
    by (simp_all add: waiting_state_def popped_state_def fresh_state_def)
  have w1: "process_edge item0 3 3 1 0 NONE NONE fresh_state False None False False
     = Inr (fresh_state\<lparr>agenda := agenda_setitem (agenda fresh_state) item0 (new_Edge 3 3 1 0 NONE NONE),
                        chart := AList.update item0 [] (chart fresh_state)\<rparr>, True)"
    using process_edge_cases [OF consistent_examples(1), where ins=3 and exh=False and sc=3
        and pr=1 and rn=0 and l=NONE and r=NONE and wl=None and sp=False and mo=False]
      first_case_examples(1) wp by simp
  have w2: "process_edge item0 3 3 1 0 NONE NONE waiting_state False None False False
     = Inr (waiting_state\<lparr>agenda := agenda_setifbetter score (agenda waiting_state) item0
                                       (new_Edge 3 3 1 0 NONE NONE)\<rparr>, True)"
    using process_edge_cases [OF consistent_examples(2), where ins=3 and exh=False and sc=3
        and pr=1 and rn=0 and l=NONE and r=NONE and wl=None and sp=False and mo=False]
      first_case_examples(2) by auto
  have w3: "process_edge item0 3 3 1 0 NONE NONE waiting_state True None False False
     = Inr (waiting_state\<lparr>agenda := agenda_setitem (agenda waiting_state) item0 (new_Edge 3 3 1 0 NONE NONE),
                          chart := AList.update item0 [iscore edge5] (chart waiting_state)\<rparr>, True)"
    using process_edge_cases [OF consistent_examples(2), where ins=3 and exh=True and sc=3
        and pr=1 and rn=0 and l=NONE and r=NONE and wl=None and sp=False and mo=False]
      first_case_examples(3) a by auto
  have w4: "process_edge item0 3 3 1 0 NONE NONE popped_state False None False False
     = Inr (popped_state\<lparr>agenda := agenda_setitem (agenda popped_state) item0 (new_Edge 3 3 1 0 NONE NONE),
                         warnings := warnings popped_state @ [item0]\<rparr>, True)"
    using process_edge_cases [OF consistent_examples(3), where ins=3 and exh=False and sc=3
        and pr=1 and rn=0 and l=NONE and r=NONE and wl=None and sp=False and mo=False]
      first_case_examples(4) by simp
  have w5: "process_edge item0 7 7 1 0 NONE NONE popped_state True None False False
     = Inr (popped_state\<lparr>chart := AList.update item0 [edge5, iscore (new_Edge 7 7 1 0 NONE NONE)]
                                    (chart popped_state)\<rparr>, True)"
    using process_edge_cases [OF consistent_examples(3), where ins=7 and exh=True and sc=7
        and pr=1 and rn=0 and l=NONE and r=NONE and wl=None and sp=False and mo=False]
      first_case_examples(5) a by auto
  have w0: "process_edge item0 7 7 1 0 NONE NONE popped_state False None False False
     = Inr (popped_state, True)"
    using process_edge_cases [OF consistent_examples(3), where ins=7 and exh=False and sc=7
        and pr=1 and rn=0 and l=NONE and r=NONE and wl=None and sp=False and mo=False]
      first_case_examples(6) by simp
  from consistent_examples w1 w2 w3 w4 w5 w0 show ?thesis by blast
qed

text \<open>
  The counterexample to the claim as stated: in first-parse mode, for an item that was
  popped with inside 5, a new edge of inside 7 meets none of the five conditions, and
  \<open>process_edge\<close> returns the state as it was.
\<close>

theorem process_edge_no_case:
  "five_cases popped_state item0 7 False = [False, False, False, False, False] \<and>
   process_edge item0 7 7 1 0 NONE NONE popped_state False None False False
     = Inr (popped_state, True)"
  by (simp add: five_cases_def in_agenda_def in_chart_def agenda_contains_def popped_state_def
      fresh_state_def item0_def edge5_def new_Edge_def new_ChartItem_def process_edge_def)

text \<open>
  C8. For a new item (neither on the agenda nor in the chart): when the whitelist
  entry of its label is \<open>None\<close> the item is admitted (inserted into the agenda, with an
  empty chart entry); when the entry is an empty dictionary the item is blocked, in
  plain mode and in \<open>splitprune\<close> mode without \<open>markorigin\<close> (with \<open>markorigin\<close> the entry
  is read as a list, not as a dictionary; in \<open>splitprune\<close> mode the loop over the runs
  of the span needs the span to be non-empty, as the span of every item of the parser
  is); every rejection by the whitelist adds exactly one to the counter \<open>blocked\<close> (an
  unsigned 32-bit counter) and changes nothing else, and an item that is not rejected
  leaves the counter as it was.
\<close>

theorem whitelist_boundary:
  assumes new: "\<not> in_agenda st newitem" "\<not> in_chart st newitem"
  shows
    "((\<exists>w. wl = Some w \<and> w (label newitem) = WNone) \<longrightarrow>
        process_edge newitem sc ins pr rn l r st exh wl sp mo
          = Inr (st\<lparr>agenda := agenda_setitem (agenda st) newitem (new_Edge sc ins pr rn l r),
                     chart := AList.update newitem [] (chart st)\<rparr>, True)) \<and>
     ((\<exists>w. wl = Some w \<and> w (label newitem) = WDict []) \<and> (sp \<longrightarrow> \<not> mo \<and> vec newitem \<noteq> 0) \<longrightarrow>
        process_edge newitem sc ins pr rn l r st exh wl sp mo
          = Inr (st\<lparr>blocked := blocked st + 1\<rparr>, False)) \<and>
     (whitelist_pass wl sp mo newitem = Inr False \<longrightarrow>
        process_edge newitem sc ins pr rn l r st exh wl sp mo
          = Inr (st\<lparr>blocked := blocked st + 1\<rparr>, False)) \<and>
     (\<forall>st'. process_edge newitem sc ins pr rn l r st exh wl sp mo = Inr (st', True)
        \<longrightarrow> blocked st' = blocked st)"
proof -
  from new have n: "first_case (five_cases st newitem ins exh) = 1"
    by (simp add: five_cases_def)
  note pe = process_edge_case1 [OF n, of sc pr rn l r wl sp mo]
  have p1: "process_edge newitem sc ins pr rn l r st exh wl sp mo
          = Inr (st\<lparr>agenda := agenda_setitem (agenda st) newitem (new_Edge sc ins pr rn l r),
                     chart := AList.update newitem [] (chart st)\<rparr>, True)"
    if "\<exists>w. wl = Some w \<and> w (label newitem) = WNone"
    using that pe whitelist_pass_none [of wl newitem sp mo] by auto
  have p3: "process_edge newitem sc ins pr rn l r st exh wl sp mo
          = Inr (st\<lparr>blocked := blocked st + 1\<rparr>, False)"
    if "whitelist_pass wl sp mo newitem = Inr False"
    using that pe by simp
  have p2: "process_edge newitem sc ins pr rn l r st exh wl sp mo
          = Inr (st\<lparr>blocked := blocked st + 1\<rparr>, False)"
    if "(\<exists>w. wl = Some w \<and> w (label newitem) = WDict []) \<and> (sp \<longrightarrow> \<not> mo \<and> vec newitem \<noteq> 0)"
  proof -
    from that obtain w where "wl = Some w" "w (label newitem) = WDict []" by blast
    from whitelist_pass_empty_dict [OF this] that
    have "whitelist_pass wl sp mo newitem = Inr False" by blast
    then show ?thesis by (rule p3)
  qed
  have p4: "blocked st' = blocked st"
    if "process_edge newitem sc ins pr rn l r st exh wl sp mo = Inr (st', True)" for st'
    using process_edge_blocked [OF that] by simp
  from p1 p2 p3 p4 show ?thesis by blast
qed

theorem whitelist_boundary_witness:
  "\<not> in_agenda fresh_state item0 \<and> \<not> in_chart fresh_state item0 \<and>
   process_edge item0 3 3 1 0 NONE NONE fresh_state False (Some (\<lambda>l. WNone)) False False
     = Inr (fresh_state\<lparr>agenda := agenda_setitem (agenda fresh_state) item0 (new_Edge 3 3 1 0 NONE NONE),
                        chart := AList.update item0 [] (chart fresh_state)\<rparr>, True) \<and>
   process_edge item0 3 3 1 0 NONE NONE fresh_state False (Some (\<lambda>l. WDict [])) False False
     = Inr (fresh_state\<lparr>blocked := blocked fresh_state + 1\<rparr>, False) \<and>
   process_edge item0 3 3 1 0 NONE NONE fresh_state False (Some (\<lambda>l. WDict [])) True False
     = Inr (fresh_state\<lparr>blocked := blocked fresh_state + 1\<rparr>, False) \<and>
   blocked (fresh_state\<lparr>blocked := blocked fresh_state + 1\<rparr>) = 1"
proof -
  have new: "\<not> in_agenda fresh_state item0" "\<not> in_chart fresh_state item0"
    by (simp_all add: in_agenda_def in_chart_def agenda_contains_def fresh_state_def)
  have v: "vec item0 \<noteq> 0"
    by (simp add: item0_def new_ChartItem_def)
  have w1: "process_edge item0 3 3 1 0 NONE NONE fresh_state False (Some (\<lambda>l. WNone)) False False
     = Inr (fresh_state\<lparr>agenda := agenda_setitem (agenda fresh_state) item0 (new_Edge 3 3 1 0 NONE NONE),
                        chart := AList.update item0 [] (chart fresh_state)\<rparr>, True)"
    by (rule whitelist_boundary [OF new, where wl="Some (\<lambda>l. WNone)" and sc=3 and ins=3 and pr=1
        and rn=0 and l=NONE and r=NONE and exh=False and sp=False and mo=False,
        THEN conjunct1, THEN mp]) simp
  have w2: "process_edge item0 3 3 1 0 NONE NONE fresh_state False (Some (\<lambda>l. WDict [])) False False
     = Inr (fresh_state\<lparr>blocked := blocked fresh_state + 1\<rparr>, False)"
    by (rule whitelist_boundary [OF new, where wl="Some (\<lambda>l. WDict [])" and sc=3 and ins=3 and pr=1
        and rn=0 and l=NONE and r=NONE and exh=False and sp=False and mo=False,
        THEN conjunct2, THEN conjunct1, THEN mp]) simp
  have w3: "process_edge item0 3 3 1 0 NONE NONE fresh_state False (Some (\<lambda>l. WDict [])) True False
     = Inr (fresh_state\<lparr>blocked := blocked fresh_state + 1\<rparr>, False)"
    by (rule whitelist_boundary [OF new, where wl="Some (\<lambda>l. WDict [])" and sc=3 and ins=3 and pr=1
        and rn=0 and l=NONE and r=NONE and exh=False and sp=True and mo=False,
        THEN conjunct2, THEN conjunct1, THEN mp]) (simp add: v)
  have b: "blocked (fresh_state\<lparr>blocked := blocked fresh_state + 1\<rparr>) = 1"
    by (simp add: fresh_state_def)
  from new w1 w2 w3 b show ?thesis by (intro conjI)
qed




text \<open>
  C5. The claim: parse returns \<open>(chart, NONE, "not covered: '<tok>'")\<close> when some position
  has no matching lexical rule and no usable gold tag; it returns
  \<open>(chart, NONE, "no parse " + stats)\<close> when the goal item is not in the chart after the
  agenda loop; and it returns a goal item other than \<open>NONE\<close> only when that item is in
  the returned chart.

  As amended: the message is \<^verbatim>\<open>"not covered: '%s'. " % tok\<close>, which ends with a full
  stop and a space; \<open>tok\<close> is the gold tag of the reported position when tags are
  given, else its word. With that message the three parts hold, for every bound
  \<open>fuel\<close> on the number of popped agenda entries:
  \<^item> when position \<open>i\<close> has no lexical rule matching the tag and no gold tag that is a
    label of the grammar, parse returns a chart, \<open>NONE\<close> and that message for a position
    up to \<open>i\<close> (the sentence has fewer than 64 words, longer ones are handed to
    \<^verbatim>\<open>parse_longsent\<close>, and the scan raises no exception);
  \<^item> when the scan succeeds, the agenda loop ends and the goal is not in the chart, parse
    returns the chart, \<open>NONE\<close> and \<open>"no parse "\<close> followed by the statistics;
  \<^item> every triple that parse returns is one of: \<open>NONE\<close> with a "not covered" message,
    \<open>NONE\<close> with a "no parse" message and a chart without the goal, or the goal item
    with a chart that contains it.
\<close>

theorem parse_failures:
  "(\<forall>i. length (sent p) < 64 \<and> \<not> scan_raises p \<and> uncovered p i \<longrightarrow>
        (\<exists>ch k. k \<le> i \<and>
           parse fuel p = Some (Inr (Returned ch NONE (not_covered_msg (token p k)))))) \<and>
   (\<forall>Epsilon st st'.
        length (sent p) < 64 \<and> map_of (toid (grammar p)) ''Epsilon'' = Some Epsilon \<and>
        scan p Epsilon 0 (sent p) (initial_state (grammar p)) = Inr (Scanned st) \<and>
        parse_loop fuel p st = Some (Inr st') \<and> map_of (chart st') (goal p) = None \<longrightarrow>
        parse fuel p = Some (Inr (Returned (chart st') NONE (''no parse '' @ stats p st')))) \<and>
   (\<forall>ch g msg. parse fuel p = Some (Inr (Returned ch g msg)) \<longrightarrow>
        (g = NONE \<and> (\<exists>i. i < length (sent p) \<and> msg = not_covered_msg (token p i))) \<or>
        (g = NONE \<and> map_of ch (goal p) = None \<and>
           (\<exists>st'. ch = chart st' \<and> msg = ''no parse '' @ stats p st')) \<or>
        (g = goal p \<and> map_of ch (goal p) \<noteq> None))"
proof -
  have unf: "parse fuel p =
      (case scan p Epsilon 0 (sent p) (initial_state (grammar p)) of
         Inl err \<Rightarrow> Some (Inl err)
       | Inr (NotCovered st msg) \<Rightarrow> Some (Inr (Returned (chart st) NONE msg))
       | Inr (Scanned st) \<Rightarrow>
           (case parse_loop fuel p st of
              None \<Rightarrow> None
            | Some (Inl err) \<Rightarrow> Some (Inl err)
            | Some (Inr st') \<Rightarrow> Some (Inr (finish p st'))))"
    if "map_of (toid (grammar p)) ''Epsilon'' = Some Epsilon" and "length (sent p) < 64"
    for Epsilon
    using that by (simp add: parse_def)
  have a: "\<exists>ch k. k \<le> i \<and>
           parse fuel p = Some (Inr (Returned ch NONE (not_covered_msg (token p k))))"
    if h: "length (sent p) < 64 \<and> \<not> scan_raises p \<and> uncovered p i" for i
  proof -
    from h obtain Epsilon where eps: "map_of (toid (grammar p)) ''Epsilon'' = Some Epsilon"
      by (auto simp: scan_raises_def split: option.splits)
    with h have ne: "\<forall>err. scan p Epsilon 0 (sent p) (initial_state (grammar p)) \<noteq> Inl err"
      by (auto simp: scan_raises_def split: sum.splits)
    have "\<exists>st' k. 0 \<le> k \<and> k \<le> i \<and> scan p Epsilon 0 (sent p) (initial_state (grammar p))
        = Inr (NotCovered st' (not_covered_msg (token p k)))"
      by (rule scan_uncovered_reported [OF _ _ _ ne]) (use h in simp_all)
    then obtain st' k where "k \<le> i"
      "scan p Epsilon 0 (sent p) (initial_state (grammar p))
         = Inr (NotCovered st' (not_covered_msg (token p k)))" by blast
    with unf [OF eps] h have "k \<le> i \<and>
       parse fuel p = Some (Inr (Returned (chart st') NONE (not_covered_msg (token p k))))"
      by simp
    then show ?thesis by blast
  qed
  have b: "parse fuel p = Some (Inr (Returned (chart st') NONE (''no parse '' @ stats p st')))"
    if "length (sent p) < 64 \<and> map_of (toid (grammar p)) ''Epsilon'' = Some Epsilon \<and>
        scan p Epsilon 0 (sent p) (initial_state (grammar p)) = Inr (Scanned st) \<and>
        parse_loop fuel p st = Some (Inr st') \<and> map_of (chart st') (goal p) = None"
    for Epsilon st st'
    using that unf [of Epsilon] by (simp add: finish_def)
  have c: "(g = NONE \<and> (\<exists>i. i < length (sent p) \<and> msg = not_covered_msg (token p i))) \<or>
        (g = NONE \<and> map_of ch (goal p) = None \<and>
           (\<exists>st'. ch = chart st' \<and> msg = ''no parse '' @ stats p st')) \<or>
        (g = goal p \<and> map_of ch (goal p) \<noteq> None)"
    if r: "parse fuel p = Some (Inr (Returned ch g msg))" for ch g msg
  proof -
    from r obtain Epsilon where eps: "map_of (toid (grammar p)) ''Epsilon'' = Some Epsilon"
      by (auto simp: parse_def split: option.splits)
    from r eps have len: "length (sent p) < 64"
      by (auto simp: parse_def split: if_splits)
    note u = unf [OF eps len]
    let ?sc = "scan p Epsilon 0 (sent p) (initial_state (grammar p))"
    show ?thesis
    proof (cases ?sc)
      case (Inl err)
      with r u show ?thesis by simp
    next
      case (Inr res)
      show ?thesis
      proof (cases res)
        case (NotCovered st m)
        with Inr r u have g: "g = NONE" and m: "m = msg" by simp_all
        from scan_not_covered_msg [of p Epsilon 0 "sent p" "initial_state (grammar p)" st m]
          Inr NotCovered m
        have "\<exists>i. i < length (sent p) \<and> msg = not_covered_msg (token p i)" by auto
        with g show ?thesis by blast
      next
        case (Scanned st)
        with Inr r u obtain st' where lp: "parse_loop fuel p st = Some (Inr st')"
          and f: "finish p st' = Returned ch g msg"
          by (auto split: option.splits sum.splits)
        show ?thesis
        proof (cases "map_of (chart st') (goal p) = None")
          case True
          with f have "g = NONE \<and> map_of ch (goal p) = None \<and>
             ch = chart st' \<and> msg = ''no parse '' @ stats p st'"
            by (auto simp: finish_def)
          then show ?thesis by blast
        next
          case False
          with f have "g = goal p \<and> map_of ch (goal p) \<noteq> None"
            by (auto simp: finish_def)
          then show ?thesis by blast
        qed
      qed
    qed
  qed
  from a b c show ?thesis by blast
qed

text \<open>
  The witness: the unknown word \<open>xx\<close> is reported as not covered, also under a whitelist
  for split pruning with \<^verbatim>\<open>markorigin\<close>; the sentence \<open>b\<close> has no parse with the start
  symbol \<open>S\<close>; with the start symbol \<open>N\<close> the goal item is returned and it is in the
  chart.
\<close>

theorem parse_failures_witness:
  "length (sent unknown_params) < 64 \<and> \<not> scan_raises unknown_params \<and>
   uncovered unknown_params 0 \<and>
   (\<exists>ch. parse 5 unknown_params = Some (Inr (Returned ch NONE (not_covered_msg ''xx'')))) \<and>
   length (sent split_params) < 64 \<and> \<not> scan_raises split_params \<and> uncovered split_params 1 \<and>
   (\<exists>ch. parse 5 split_params = Some (Inr (Returned ch NONE (not_covered_msg ''xx'')))) \<and>
   parse 5 noparse_params = Some (Inr (Returned [(b_item, [b_edge])] NONE
     ''no parse agenda max 0, now 0, items 1 (1 labels), edges 1, blocked 0'')) \<and>
   parse 5 success_params = Some (Inr (Returned [(b_item, [b_edge])] b_item
     ''agenda max 0, now 0, items 1 (1 labels), edges 1, blocked 0'')) \<and>
   map_of [(b_item, [b_edge])] b_item \<noteq> None"
proof -
  from parse_failures [of unknown_params 5, THEN conjunct1, rule_format, of 0]
    unknown_params_scan unknown_params_facts(1)
  obtain ch k where "k \<le> 0" "parse 5 unknown_params
      = Some (Inr (Returned ch NONE (not_covered_msg (token unknown_params k))))"
    by blast
  then have a: "\<exists>ch. parse 5 unknown_params = Some (Inr (Returned ch NONE (not_covered_msg ''xx'')))"
    using unknown_params_facts(3) by auto
  from parse_failures [of split_params 5, THEN conjunct1, rule_format, of 1]
    split_params_facts(1,2,3)
  obtain ch k where k: "k \<le> 1" and r: "parse 5 split_params
      = Some (Inr (Returned ch NONE (not_covered_msg (token split_params k))))"
    by blast
  have "k = 1"
  proof (rule ccontr)
    assume "k \<noteq> 1"
    with k have "k = 0" by simp
    with r split_params_facts(4,6) show False by simp
  qed
  with r split_params_facts(5)
  have a2: "\<exists>ch. parse 5 split_params = Some (Inr (Returned ch NONE (not_covered_msg ''xx'')))"
    by auto
  from parse_failures [of noparse_params 5, THEN conjunct2, THEN conjunct1,
      rule_format, of 0 b_scanned b_done] noparse_params_eps noparse_params_facts(2,3)
  have "parse 5 noparse_params
      = Some (Inr (Returned (chart b_done) NONE (''no parse '' @ stats noparse_params b_done)))"
    by blast
  then have b: "parse 5 noparse_params = Some (Inr (Returned [(b_item, [b_edge])] NONE
     ''no parse agenda max 0, now 0, items 1 (1 labels), edges 1, blocked 0''))"
    unfolding noparse_params_facts(4) by (simp add: b_done_def)
  from parse_failures [of success_params 5, THEN conjunct2, THEN conjunct2,
      rule_format, OF success_params_facts(1)] success_params_facts(2,3)
  have c: "map_of [(b_item, [b_edge])] b_item \<noteq> None"
    by auto
  from unknown_params_scan unknown_params_facts(1) a split_params_facts(1,2,3) a2 b
    success_params_facts(1) c
  show ?thesis by (intro conjI)
qed

text \<open>
  The message that parse returns for the unknown word \<open>xx\<close> is \<^verbatim>\<open>"not covered: 'xx'. "\<close>,
  not \<^verbatim>\<open>"not covered: 'xx'"\<close>.
\<close>

theorem parse_not_covered_text:
  "uncovered unknown_params 0 \<and>
   parse 5 unknown_params
     = Some (Inr (Returned [] NONE (''not covered: '' @ [CHR 0x27] @ ''xx'' @ [CHR 0x27] @ ''. ''))) \<and>
   parse 5 unknown_params
     \<noteq> Some (Inr (Returned [] NONE (''not covered: '' @ [CHR 0x27] @ ''xx'' @ [CHR 0x27])))"
  by code_simp

end
